theory Spec2Isabelle
  imports Complex_Main
begin

section \<open>JavaScript strings and numbers\<close>

text \<open>
  Strings are character lists. \<open>str_includes\<close> is \<open>String.prototype.includes\<close>:
  the argument occurs somewhere as a contiguous substring.
\<close>

fun startsWith :: "string \<Rightarrow> string \<Rightarrow> bool" where
  "startsWith s [] = True"
| "startsWith [] (c # cs) = False"
| "startsWith (x # xs) (c # cs) = (x = c \<and> startsWith xs cs)"

fun str_includes :: "string \<Rightarrow> string \<Rightarrow> bool" where
  "str_includes [] sub = (sub = [])"
| "str_includes (x # xs) sub = (startsWith (x # xs) sub \<or> str_includes xs sub)"

text \<open>Decimal rendering of a number inside a template literal.\<close>

definition digit_char :: "nat \<Rightarrow> char" where
  "digit_char d = char_of (48 + d)"

fun show_nat :: "nat \<Rightarrow> string" where
  "show_nat n = (if n < 10 then [digit_char n] else show_nat (n div 10) @ [digit_char (n mod 10)])"

definition show_int :: "int \<Rightarrow> string" where
  "show_int i = (if i < 0 then CHR ''-'' # show_nat (nat (- i)) else show_nat (nat i))"

section \<open>Error classification: \<open>ErrorMapper\<close> and \<open>BitrixError\<close>\<close>

record BitrixErrorResponse =
  error :: string
  error_description :: string

text \<open>
  \<open>BitrixErrorDetails\<close> is also the shape of a constructed \<open>BitrixError\<close>: the
  constructor copies the six fields.
\<close>

record BitrixErrorDetails =
  code :: string
  message :: string
  httpStatus :: int
  isSystemError :: bool
  isRetryable :: bool
  requiresAuth :: bool

type_synonym BitrixError = BitrixErrorDetails

text \<open>One entry of the static table \<open>SYSTEM_ERRORS\<close>.\<close>

datatype SystemError = SystemError
  (se_httpStatus: int) (se_isSystemError: bool) (se_isRetryable: bool)
  (se_requiresAuth: bool) (se_message: string)

definition SYSTEM_ERRORS :: "(string \<times> SystemError) list" where
  "SYSTEM_ERRORS =
   [(''INTERNAL_SERVER_ERROR'',
       SystemError 500 True True False ''Internal server error has occurred''),
    (''ERROR_UNEXPECTED_ANSWER'',
       SystemError 500 True True False ''Server returned an unexpected response''),
    (''QUERY_LIMIT_EXCEEDED'',
       SystemError 503 True True False ''Request intensity limit has been exceeded''),
    (''OVERLOAD_LIMIT'',
       SystemError 503 True True False ''REST API is blocked due to overload''),
    (''ERROR_BATCH_METHOD_NOT_ALLOWED'',
       SystemError 405 True False False ''Method is not allowed for batch usage''),
    (''ERROR_BATCH_LENGTH_EXCEEDED'',
       SystemError 400 True False False ''Maximum batch length exceeded''),
    (''INVALID_REQUEST'',
       SystemError 400 True False False ''HTTPS protocol is required for calling REST methods''),
    (''NO_AUTH_FOUND'',
       SystemError 401 True False True ''Invalid access token or webhook code''),
    (''expired_token'',
       SystemError 401 True False True ''The provided access token has expired''),
    (''ACCESS_DENIED'',
       SystemError 403 True False False ''REST API is available only on commercial plans''),
    (''INVALID_CREDENTIALS'',
       SystemError 403 True False True ''User lacks required permissions''),
    (''insufficient_scope'',
       SystemError 403 True False True
         ''The request requires higher privileges than provided by the webhook token''),
    (''user_access_error'',
       SystemError 403 True False False ''User does not have access to the application''),
    (''ERROR_MANIFEST_IS_NOT_AVAILABLE'',
       SystemError 404 True False False ''Manifest is not available'')]"

text \<open>
  \<open>SYSTEM_ERRORS\<close> is an object literal, so \<open>SYSTEM_ERRORS[code]\<close> and
  \<open>code in SYSTEM_ERRORS\<close> also see the properties every object inherits from
  \<open>Object.prototype\<close>. An inherited property is a function (or, for \<open>__proto__\<close>, an
  object): truthy, and without any of the fields of a table entry.
\<close>

definition Object_prototype_keys :: "string list" where
  "Object_prototype_keys =
   [''constructor'', ''hasOwnProperty'', ''isPrototypeOf'', ''propertyIsEnumerable'',
    ''toLocaleString'', ''toString'', ''valueOf'', ''__proto__'',
    ''__defineGetter__'', ''__defineSetter__'', ''__lookupGetter__'', ''__lookupSetter__'']"

datatype property = Own SystemError | Inherited | Undefined

definition SYSTEM_ERRORS_get :: "string \<Rightarrow> property" where
  "SYSTEM_ERRORS_get c =
     (case map_of SYSTEM_ERRORS c of
        Some e \<Rightarrow> Own e
      | None \<Rightarrow> if c \<in> set Object_prototype_keys then Inherited else Undefined)"

text \<open>\<open>ErrorMapper.isSystemError(code)\<close> is \<open>code in this.SYSTEM_ERRORS\<close>.\<close>

definition isSystemError_code :: "string \<Rightarrow> bool" where
  "isSystemError_code c = (SYSTEM_ERRORS_get c \<noteq> Undefined)"

definition mapApiError :: "BitrixErrorResponse \<Rightarrow> int \<Rightarrow> BitrixError" where
  "mapApiError errorResponse status =
     (let c = error errorResponse;
          description = (if error_description errorResponse = []
                         then ''Unknown error'' else error_description errorResponse);
          systemError = SYSTEM_ERRORS_get c
      in \<lparr> code = c,
           message = description,
           httpStatus = (case systemError of
                           Own e \<Rightarrow> if se_httpStatus e = 0 then status else se_httpStatus e
                         | Inherited \<Rightarrow> status
                         | Undefined \<Rightarrow> status),
           isSystemError = (systemError \<noteq> Undefined),
           isRetryable = (case systemError of
                            Own e \<Rightarrow> se_isRetryable e | Inherited \<Rightarrow> False | Undefined \<Rightarrow> False),
           requiresAuth = (case systemError of
                            Own e \<Rightarrow> se_requiresAuth e | Inherited \<Rightarrow> False | Undefined \<Rightarrow> False) \<rparr>)"

definition mk_details :: "string \<Rightarrow> string \<Rightarrow> int \<Rightarrow> bool \<Rightarrow> bool \<Rightarrow> BitrixError" where
  "mk_details c m status retryable auth =
     \<lparr> code = c, message = m, httpStatus = status, isSystemError = False,
       isRetryable = retryable, requiresAuth = auth \<rparr>"

definition mapHttpStatus :: "int \<Rightarrow> BitrixError" where
  "mapHttpStatus status =
     (if status = 400 then mk_details ''BAD_REQUEST'' ''Bad request'' status False False
      else if status = 401 then mk_details ''UNAUTHORIZED'' ''Unauthorized access'' status False True
      else if status = 403 then mk_details ''FORBIDDEN'' ''Access forbidden'' status False False
      else if status = 404 then mk_details ''NOT_FOUND'' ''Resource not found'' status False False
      else if status = 405 then
        mk_details ''METHOD_NOT_ALLOWED'' ''Method not allowed'' status False False
      else if status = 429 then
        mk_details ''TOO_MANY_REQUESTS'' ''Too many requests'' status True False
      else if status = 500 then
        mk_details ''INTERNAL_SERVER_ERROR'' ''Internal server error'' status True False
      else if status = 502 then mk_details ''BAD_GATEWAY'' ''Bad gateway'' status True False
      else if status = 503 then
        mk_details ''SERVICE_UNAVAILABLE'' ''Service unavailable'' status True False
      else if status = 504 then
        mk_details ''GATEWAY_TIMEOUT'' ''Gateway timeout'' status True False
      else mk_details ''UNKNOWN_HTTP_ERROR'' (''HTTP '' @ show_int status @ '' error'')
             status (status \<ge> 500) False)"

text \<open>
  \<open>mapHttpResponse\<close>: the body is \<open>None\<close> when there is none or it is not an object;
  a body whose \<open>error\<close> is empty (falsy) falls through to the status table.
\<close>

definition mapHttpResponse :: "int \<Rightarrow> BitrixErrorResponse option \<Rightarrow> BitrixError" where
  "mapHttpResponse status responseBody =
     (case responseBody of
        Some body \<Rightarrow> if error body \<noteq> [] then mapApiError body status else mapHttpStatus status
      | None \<Rightarrow> mapHttpStatus status)"

definition isAuthError :: "BitrixError \<Rightarrow> bool" where
  "isAuthError e =
     (requiresAuth e \<or> code e \<in> set [''NO_AUTH_FOUND'', ''expired_token'', ''INVALID_CREDENTIALS''])"

definition isRateLimitError :: "BitrixError \<Rightarrow> bool" where
  "isRateLimitError e = (code e \<in> set [''QUERY_LIMIT_EXCEEDED'', ''OVERLOAD_LIMIT''])"

definition getRetryAfter :: "BitrixError \<Rightarrow> int" where
  "getRetryAfter e =
     (if isRateLimitError e then 60000 else if httpStatus e \<ge> 500 then 5000 else 0)"

section \<open>Retry orchestration: \<open>ErrorHandler.handleWithRetry\<close>\<close>

record ErrorHandlerOptions =
  maxRetries :: int
  retryDelay :: int

text \<open>
  What an attempt of the operation throws: a \<open>BitrixError\<close>, or any other error, of
  which only the message is kept.
\<close>

datatype thrown = ThrownBitrix BitrixError | ThrownOther string

definition ensureBitrixError :: "thrown \<Rightarrow> BitrixError" where
  "ensureBitrixError t =
     (case t of
        ThrownBitrix e \<Rightarrow> e
      | ThrownOther m \<Rightarrow>
          \<lparr> code = ''UNKNOWN_ERROR'',
            message = (if m = [] then ''Unknown error occurred'' else m),
            httpStatus = 500, isSystemError = False, isRetryable = False,
            requiresAuth = False \<rparr>)"

text \<open>The observable steps of the retry loop, in the order they happen.\<close>

datatype retry_event =
    Attempt int
  | OnAuthRequired BitrixError
  | OnRateLimit BitrixError
  | OnRetry BitrixError int
  | Sleep int

text \<open>
  The loop \<open>for (attempt = 0; attempt <= maxRetries; attempt++)\<close>. The operation is
  given by its outcome at each attempt. The result is what the call throws (\<open>Inl\<close>; \<open>None\<close>
  is the unassigned \<open>lastError\<close> of a loop that never ran) or returns, with the events.
\<close>

function handleWithRetry_from ::
  "ErrorHandlerOptions \<Rightarrow> (int \<Rightarrow> thrown + 'a) \<Rightarrow> int \<Rightarrow> BitrixError option
     \<Rightarrow> (BitrixError option + 'a) \<times> retry_event list" where
  "handleWithRetry_from opts operation attempt lastError =
     (if attempt \<le> maxRetries opts then
        (case operation attempt of
           Inr v \<Rightarrow> (Inr v, [Attempt attempt])
         | Inl t \<Rightarrow>
             (let e = ensureBitrixError t in
              if attempt = maxRetries opts then (Inl (Some e), [Attempt attempt])
              else if \<not> isRetryable e then (Inl (Some e), [Attempt attempt])
              else if isAuthError e then
                (let (r, evs) = handleWithRetry_from opts operation (attempt + 1) (Some e)
                 in (r, Attempt attempt # OnAuthRequired e # evs))
              else
                (let delay = (if getRetryAfter e \<noteq> 0 then getRetryAfter e else retryDelay opts);
                     (r, evs) = handleWithRetry_from opts operation (attempt + 1) (Some e)
                 in (r, Attempt attempt
                        # (if isRateLimitError e then [OnRateLimit e] else [])
                        @ [OnRetry e (attempt + 1), Sleep delay] @ evs))))
      else (Inl lastError, []))"
  by pat_completeness auto
termination
  by (relation "measure (\<lambda>(opts, operation, attempt, lastError). nat (maxRetries opts + 1 - attempt))")
     auto

declare handleWithRetry_from.simps [simp del]

definition handleWithRetry ::
  "ErrorHandlerOptions \<Rightarrow> (int \<Rightarrow> thrown + 'a) \<Rightarrow> (BitrixError option + 'a) \<times> retry_event list" where
  "handleWithRetry opts operation = handleWithRetry_from opts operation 0 None"

section \<open>The token endpoint: \<open>BitrixOAuth2.refreshToken\<close>\<close>

record TokenResponse =
  access_token :: string
  refresh_token :: string
  expires_in :: int
  scope :: string
  domain :: string
  server_endpoint :: string

text \<open>
  What \<open>fetch\<close> on the token endpoint gives: it rejects; or the response is not
  \<open>ok\<close>, with its status, status text and the result of \<open>JSON.parse\<close> on the body
  (\<open>None\<close> when parsing throws or yields \<open>null\<close>, whose properties cannot be
  read); or the response is \<open>ok\<close> and \<open>response.json()\<close>
  yields the envelope or rejects. A field that is absent from the JSON is the empty
  string (or 0 for \<open>expires_in\<close>): the code only tests such fields for truthiness.
\<close>

datatype token_endpoint_reply =
    FetchRejected string
  | NotOk int string "BitrixErrorResponse option"
  | OkJson TokenResponse
  | OkBadJson string

text \<open>The result of \<open>refreshToken\<close>: \<open>Inl\<close> is the message of the thrown \<open>Error\<close>.\<close>

definition oauth_refreshToken :: "token_endpoint_reply \<Rightarrow> string + TokenResponse" where
  "oauth_refreshToken reply =
     (case reply of
        FetchRejected m \<Rightarrow> Inl m
      | NotOk status statusText parsed \<Rightarrow>
          (case parsed of
             None \<Rightarrow>
               Inl (''Token refresh failed'' @ '': '' @ show_int status @ '' '' @ statusText)
           | Some errorJson \<Rightarrow>
               if error errorJson = ''invalid_grant''
               then Inl ''Refresh token expired or invalid. Re-authentication required.''
               else if error_description errorJson \<noteq> [] then Inl (error_description errorJson)
               else if error errorJson \<noteq> [] then Inl (error errorJson)
               else Inl ''Token refresh failed'')
      | OkJson t \<Rightarrow>
          if access_token t = [] \<or> expires_in t = 0
          then Inl ''Invalid refresh token response from server''
          else Inr t
      | OkBadJson m \<Rightarrow> Inl m)"

section \<open>Credential management: \<open>TokenManager\<close>\<close>

text \<open>
  The fields of the class. \<open>refreshPromise\<close> holds the identity of the promise of the
  refresh in flight. The clock \<open>Date.now()\<close> is passed to each operation in
  milliseconds; \<open>Math.floor(Date.now() / 1000)\<close> is \<open>nowms div 1000\<close>.
\<close>

record TokenManager =
  tokens :: "TokenResponse option"
  refreshPromise :: "nat option"
  tokenIssuedAt :: "int option"

fun join :: "string \<Rightarrow> string list \<Rightarrow> string" where
  "join sep [] = []"
| "join sep [x] = x"
| "join sep (x # y # ys) = x @ sep @ join sep (y # ys)"

definition validateTokenStructure :: "TokenResponse \<Rightarrow> string + unit" where
  "validateTokenStructure t =
     (let missing = (if access_token t = [] then [''access_token''] else [])
                  @ (if expires_in t = 0 then [''expires_in''] else [])
                  @ (if domain t = [] then [''domain''] else [])
      in if length missing > 0
         then Inl (''Invalid token structure. Missing fields: '' @ join '', '' missing)
         else if expires_in t \<le> 0 then Inl ''Invalid expires_in value in token response''
         else Inr ())"

text \<open>
  \<open>setTokens\<close> returns what it throws or returns together with the object's fields as
  they are when it does.
\<close>

definition setTokens :: "TokenManager \<Rightarrow> TokenResponse \<Rightarrow> int \<Rightarrow> (string + unit) \<times> TokenManager" where
  "setTokens tm t nowms =
     (case validateTokenStructure t of
        Inl e \<Rightarrow> (Inl e, tm)
      | Inr u \<Rightarrow> (Inr (), tm\<lparr>tokens := Some t, tokenIssuedAt := Some (nowms div 1000)\<rparr>))"

definition clearTokens :: "TokenManager \<Rightarrow> TokenManager" where
  "clearTokens tm = tm\<lparr>tokens := None, tokenIssuedAt := None, refreshPromise := None\<rparr>"

text \<open>
  \<open>isTokenExpired(marginMinutes)\<close>. The test \<open>!this.tokenIssuedAt\<close> also holds for
  the number 0.
\<close>

definition isTokenExpired :: "TokenManager \<Rightarrow> int \<Rightarrow> int \<Rightarrow> bool" where
  "isTokenExpired tm marginMinutes nowms =
     (case tokens tm of
        None \<Rightarrow> True
      | Some t \<Rightarrow>
          (case tokenIssuedAt tm of
             None \<Rightarrow> True
           | Some issued \<Rightarrow>
               if issued = 0 then True
               else (let now = nowms div 1000;
                         marginSeconds = marginMinutes * 60;
                         expiresAt = issued + expires_in t
                     in expiresAt - marginSeconds \<le> now)))"

definition isTokenExpiringSoon :: "TokenManager \<Rightarrow> int \<Rightarrow> bool" where
  "isTokenExpiringSoon tm nowms = isTokenExpired tm 5 nowms"

definition hasValidTokens :: "TokenManager \<Rightarrow> int \<Rightarrow> bool" where
  "hasValidTokens tm nowms = (case tokens tm of None \<Rightarrow> False | Some t \<Rightarrow> \<not> isTokenExpired tm 60 nowms)"

text \<open>
  \<open>refreshTokens\<close> after its \<open>await this.oauth.refreshToken(...)\<close>: the argument is what
  that call returned or threw. The result is what the promise of \<open>refreshTokens\<close> settles
  with.
\<close>

definition refreshTokens_settle ::
  "TokenManager \<Rightarrow> string + TokenResponse \<Rightarrow> int \<Rightarrow> (string + TokenResponse) \<times> TokenManager" where
  "refreshTokens_settle tm r nowms =
     (case r of
        Inr newTokens \<Rightarrow> (Inr newTokens, tm\<lparr>tokenIssuedAt := Some (nowms div 1000)\<rparr>)
      | Inl m \<Rightarrow>
          if str_includes m ''invalid_grant''
          then (Inl ''Refresh token expired. Re-authentication required.'', clearTokens tm)
          else (Inl m, tm))"

text \<open>
  The asynchronous part. JavaScript runs each piece of code between two \<open>await\<close>s to
  completion, so a run of the manager is a sequence of such pieces. A session holds the
  manager, the refresh calls on the network (by promise), the \<open>getValidToken\<close> calls
  suspended at \<open>await this.refreshPromise\<close> (caller and promise, in the order they began
  to wait), the calls that have finished with their result, the events emitted, and the
  number of calls of \<open>oauth.refreshToken\<close> made so far.
\<close>

datatype tm_event = TokenRefreshed TokenResponse | TokenExpired | RefreshFailed string

datatype outcome = Returned string | Threw string

record session =
  manager :: TokenManager
  inflight :: "nat list"
  waiters :: "(nat \<times> nat) list"
  results :: "(nat \<times> outcome) list"
  events :: "tm_event list"
  refreshCalls :: nat

definition finish :: "session \<Rightarrow> nat \<Rightarrow> outcome \<Rightarrow> session" where
  "finish S caller r = S\<lparr>results := results S @ [(caller, r)]\<rparr>"

definition emit :: "session \<Rightarrow> tm_event \<Rightarrow> session" where
  "emit S e = S\<lparr>events := events S @ [e]\<rparr>"

text \<open>
  \<open>refreshTokens\<close> up to its \<open>await\<close>: without a refresh token it throws at once
  (\<open>Inl\<close>); otherwise it calls \<open>oauth.refreshToken\<close>, which sends the request, and the
  new promise is pending.
\<close>

definition refreshTokens_begin :: "session \<Rightarrow> string + (nat \<times> session)" where
  "refreshTokens_begin S =
     (case tokens (manager S) of
        None \<Rightarrow> Inl ''No refresh token available''
      | Some t \<Rightarrow>
          if refresh_token t = [] then Inl ''No refresh token available''
          else (let p = Suc (refreshCalls S)
                in Inr (p, S\<lparr>refreshCalls := p, inflight := inflight S @ [p]\<rparr>)))"

text \<open>
  The continuation of \<open>getValidToken\<close> after \<open>await this.refreshPromise\<close>, for one
  caller: the \<open>try\<close>, \<open>catch\<close> and \<open>finally\<close> blocks and the final \<open>return\<close>.
\<close>

definition getValidToken_resume :: "session \<Rightarrow> nat \<Rightarrow> string + TokenResponse \<Rightarrow> session" where
  "getValidToken_resume S caller settled =
     (case settled of
        Inr newTokens \<Rightarrow>
          (let S1 = S\<lparr>manager := (manager S)\<lparr>tokens := Some newTokens\<rparr>\<rparr>;
               S2 = emit S1 (TokenRefreshed newTokens);
               S3 = S2\<lparr>manager := (manager S2)\<lparr>refreshPromise := None\<rparr>\<rparr>
           in finish S3 caller (Returned (access_token newTokens)))
      | Inl m \<Rightarrow>
          (let S1 = emit S (RefreshFailed m);
               S2 = S1\<lparr>manager := (manager S1)\<lparr>refreshPromise := None\<rparr>\<rparr>
           in finish S2 caller (Threw m)))"

text \<open>
  \<open>getValidToken\<close> from its start to its first \<open>await\<close> (or to its end, when it does not
  reach one), for the caller \<open>caller\<close> at clock \<open>nowms\<close>.
\<close>

definition getValidToken_call :: "session \<Rightarrow> nat \<Rightarrow> int \<Rightarrow> session" where
  "getValidToken_call S caller nowms =
     (case tokens (manager S) of
        None \<Rightarrow> finish S caller (Threw ''No tokens available. Please authorize first.'')
      | Some t \<Rightarrow>
          if isTokenExpiringSoon (manager S) nowms then
            if refresh_token t = [] then
              finish (emit S TokenExpired) caller
                (Threw ''Access token expired and no refresh token available. Re-authentication required.'')
            else
              (case refreshPromise (manager S) of
                 Some p \<Rightarrow> S\<lparr>waiters := waiters S @ [(caller, p)]\<rparr>
               | None \<Rightarrow>
                   (case refreshTokens_begin S of
                      Inr (p, S1) \<Rightarrow>
                        S1\<lparr>manager := (manager S1)\<lparr>refreshPromise := Some p\<rparr>,
                           waiters := waiters S1 @ [(caller, p)]\<rparr>
                    | Inl m \<Rightarrow> getValidToken_resume S caller (Inl m)))
          else finish S caller (Returned (access_token t)))"

text \<open>
  The reply to the refresh request of promise \<open>p\<close> arrives at clock \<open>nowms\<close>:
  \<open>oauth.refreshToken\<close> and \<open>refreshTokens\<close> run to their end, the promise settles, and
  the callers waiting on it resume in the order they began to wait.
\<close>

definition refresh_reply :: "session \<Rightarrow> nat \<Rightarrow> token_endpoint_reply \<Rightarrow> int \<Rightarrow> session" where
  "refresh_reply S p reply nowms =
     (if p \<in> set (inflight S) then
        (let (settled, manager1) = refreshTokens_settle (manager S) (oauth_refreshToken reply) nowms;
             woken = filter (\<lambda>w. snd w = p) (waiters S);
             S1 = S\<lparr>manager := manager1,
                    inflight := removeAll p (inflight S),
                    waiters := filter (\<lambda>w. snd w \<noteq> p) (waiters S)\<rparr>
         in foldl (\<lambda>S' w. getValidToken_resume S' (fst w) settled) S1 woken)
      else S)"

text \<open>A list of \<open>getValidToken\<close> calls (caller, clock) begun one after the other.\<close>

definition getValidToken_calls :: "session \<Rightarrow> (nat \<times> int) list \<Rightarrow> session" where
  "getValidToken_calls S calls = foldl (\<lambda>S' c. getValidToken_call S' (fst c) (snd c)) S calls"

section \<open>Admission control: \<open>BitrixRateLimiter\<close>\<close>

datatype backoff = Linear | Exponential

text \<open>
  The configuration and the state of the limiter. Counts and millisecond values are
  integers; values in seconds (the clock \<open>Date.now() / 1000\<close>, operating times and the
  reset instant) are reals. Two fields share a name with another field of the source and
  carry a suffix: \<open>maxRetries_rl\<close> is \<open>config.maxRetries\<close> and
  \<open>operatingTimeWindow_st\<close> is \<open>state.operatingTimeWindow\<close>.
\<close>

record RateLimitConfig =
  maxRequestsPerSecond :: int
  burstLimit :: int
  maxOperatingTimePerWindow :: real
  operatingTimeWindow :: real
  enableRetry :: bool
  maxRetries_rl :: int
  retryBackoffStrategy :: backoff
  retryBaseDelay :: int
  enableQueueing :: bool
  maxQueueSize :: int
  queueTimeout :: int

record RateLimitState =
  requestCounter :: int
  lastRequestTime :: int
  operatingTimeUsed :: real
  operatingTimeWindow_st :: real
  operatingResetAt :: "real option"
  blockedMethods :: "string set"
  isBlocked :: bool

text \<open>
  A queued request; \<open>req_id\<close> and \<open>req_method\<close> are its \<open>id\<close> and \<open>method\<close>. Its
  unit of work (\<open>params\<close>) and its \<open>resolve\<close> and \<open>reject\<close> are not data: invoking
  the work and settling the caller's promise are recorded as events.
\<close>

record QueuedRequest =
  req_id :: nat
  req_method :: string
  priority :: int
  timestamp :: int
  retryCount :: int

text \<open>
  The \<open>time\<close> part of a result, when it has one: \<open>operating\<close> and \<open>operating_reset_at\<close>,
  0 when absent (both are only tested for truthiness).
\<close>

record response_time =
  operating :: real
  operating_reset_at :: real

datatype delay = Finite real | Infinity

datatype rl_event =
    Dispatched QueuedRequest
  | Resolved QueuedRequest
  | Rejected QueuedRequest string
  | Sleeping delay
  | RetryScheduled QueuedRequest int
  | Uncaught QueuedRequest

text \<open>
  An activation of \<open>processQueue\<close> suspended at one of its two \<open>await\<close>s.
\<close>

datatype suspension = AwaitingRequest | AwaitingAvailability

text \<open>
  The limiter: the four fields of the class that the operations read and write, and what
  is going on around them: the suspended activations of \<open>processQueue\<close>, the requests
  whose unit of work has been invoked and has not settled (with a mark when an activation
  of \<open>processQueue\<close> awaits it), the pending retry timers, whether the decay interval is
  set, and the events so far.
\<close>

record limiter =
  config :: RateLimitConfig
  state :: RateLimitState
  requestQueue :: "QueuedRequest list"
  processingQueue :: bool
  counterDecreaseInterval :: bool
  loops :: "suspension list"
  running :: "(QueuedRequest \<times> bool) list"
  timers :: "(QueuedRequest \<times> int) list"
  trace :: "rl_event list"

definition default_config :: RateLimitConfig where
  "default_config =
     \<lparr> maxRequestsPerSecond = 2, burstLimit = 50, maxOperatingTimePerWindow = 480,
       operatingTimeWindow = 600, enableRetry = True, maxRetries_rl = 3,
       retryBackoffStrategy = Exponential, retryBaseDelay = 1000, enableQueueing = True,
       maxQueueSize = 1000, queueTimeout = 300000 \<rparr>"

text \<open>The constructor, for a complete configuration, at clock \<open>nowms\<close>.\<close>

definition BitrixRateLimiter :: "RateLimitConfig \<Rightarrow> int \<Rightarrow> limiter" where
  "BitrixRateLimiter cfg nowms =
     \<lparr> config = cfg,
       state = \<lparr> requestCounter = 0, lastRequestTime = nowms, operatingTimeUsed = 0,
                 operatingTimeWindow_st = real_of_int nowms, operatingResetAt = None,
                 blockedMethods = {}, isBlocked = False \<rparr>,
       requestQueue = [], processingQueue = False, counterDecreaseInterval = True,
       loops = [], running = [], timers = [], trace = [] \<rparr>"

definition seconds :: "int \<Rightarrow> real" where
  "seconds nowms = real_of_int nowms / 1000"

text \<open>\<open>this.state.operatingResetAt && ...\<close>: \<open>null\<close> and 0 are falsy.\<close>

definition truthy :: "real option \<Rightarrow> bool" where
  "truthy r = (case r of None \<Rightarrow> False | Some v \<Rightarrow> v \<noteq> 0)"

text \<open>\<open>canMakeRequest\<close>: the answer and the state it leaves.\<close>

definition canMakeRequest ::
  "RateLimitConfig \<Rightarrow> RateLimitState \<Rightarrow> string \<Rightarrow> int \<Rightarrow> bool \<times> RateLimitState" where
  "canMakeRequest cfg st m nowms =
     (if m \<in> blockedMethods st \<and> truthy (operatingResetAt st)
         \<and> seconds nowms < the (operatingResetAt st)
      then (False, st)
      else
        (let st1 = (if m \<in> blockedMethods st
                    then st\<lparr>blockedMethods := blockedMethods st - {m}, operatingResetAt := None\<rparr>
                    else st)
         in if requestCounter st1 \<ge> burstLimit cfg
            then (False, st1\<lparr>isBlocked := True\<rparr>)
            else (True, st1\<lparr>isBlocked := False\<rparr>)))"

definition incrementCounter :: "RateLimitState \<Rightarrow> int \<Rightarrow> RateLimitState" where
  "incrementCounter st nowms = st\<lparr>requestCounter := requestCounter st + 1, lastRequestTime := nowms\<rparr>"

text \<open>The callback of the one-second interval set by \<open>startCounterDecrease\<close>.\<close>

definition counterDecrease :: "RateLimitConfig \<Rightarrow> RateLimitState \<Rightarrow> RateLimitState" where
  "counterDecrease cfg st =
     (let st1 = (if requestCounter st > 0
                 then st\<lparr>requestCounter := max 0 (requestCounter st - maxRequestsPerSecond cfg)\<rparr>
                 else st)
      in if requestCounter st1 = 0 then st1\<lparr>isBlocked := False\<rparr> else st1)"

definition calculateRetryDelay :: "RateLimitConfig \<Rightarrow> int \<Rightarrow> int" where
  "calculateRetryDelay cfg n =
     (case retryBackoffStrategy cfg of
        Exponential \<Rightarrow> retryBaseDelay cfg * 2 ^ nat n
      | Linear \<Rightarrow> retryBaseDelay cfg * (n + 1))"

definition processResponseTimeInfo ::
  "RateLimitConfig \<Rightarrow> RateLimitState \<Rightarrow> response_time option \<Rightarrow> int \<Rightarrow> RateLimitState" where
  "processResponseTimeInfo cfg st result nowms =
     (case result of
        None \<Rightarrow> st
      | Some t \<Rightarrow>
          if operating t = 0 then st
          else
            (let now = seconds nowms;
                 st1 = (if now - operatingTimeWindow_st st > operatingTimeWindow cfg
                        then st\<lparr>operatingTimeUsed := 0, operatingTimeWindow_st := now\<rparr>
                        else st);
                 st2 = st1\<lparr>operatingTimeUsed := operatingTimeUsed st1 + operating t\<rparr>
             in if operating_reset_at t \<noteq> 0
                then st2\<lparr>operatingResetAt := Some (operating_reset_at t)\<rparr>
                else st2))"

text \<open>
  What a unit of work rejects with. An \<open>Error\<close>, or any value with a string \<open>message\<close>,
  is given by that message together with what \<open>handleResourceLimitExceeded\<close> reads from
  it: the number that \<open>parseInt\<close> returns for the group of
  \<open>message.match(/operating_reset_at['":\s]*(\d+)/)\<close>, or \<open>None\<close> when the expression does
  not match. Matching and \<open>parseInt\<close> belong to the JavaScript runtime (its white space
  class, its rounding of long digit strings), so the number is given with the message and
  not computed here. \<open>NoMessage\<close> is a value on which evaluating
  \<open>error.message.includes(...)\<close> throws a \<open>TypeError\<close>: \<open>undefined\<close>, \<open>null\<close>, a string, a
  number, an object without \<open>message\<close>. A value whose \<open>message\<close> is not a string and yet
  has a method \<open>includes\<close> (an array) is not represented.
\<close>

datatype rejection = Failure string "real option" | NoMessage

definition handleResourceLimitExceeded ::
  "RateLimitState \<Rightarrow> string \<Rightarrow> real option \<Rightarrow> RateLimitState" where
  "handleResourceLimitExceeded st m resetMatch =
     (let st1 = st\<lparr>blockedMethods := insert m (blockedMethods st)\<rparr>
      in case resetMatch of
           Some r \<Rightarrow> st1\<lparr>operatingResetAt := Some r\<rparr>
         | None \<Rightarrow> st1)"

text \<open>
  \<open>waitForAvailability\<close>: how long it sleeps, \<open>None\<close> when it returns without sleeping.
\<close>

definition baseDelay :: "RateLimitConfig \<Rightarrow> delay" where
  "baseDelay cfg =
     (if maxRequestsPerSecond cfg = 0 then Infinity
      else Finite (real_of_int \<lceil>1000 / real_of_int (maxRequestsPerSecond cfg)\<rceil>))"

definition waitForAvailability ::
  "RateLimitConfig \<Rightarrow> RateLimitState \<Rightarrow> string \<Rightarrow> int \<Rightarrow> delay option" where
  "waitForAvailability cfg st m nowms =
     (let waitTime = (if m \<in> blockedMethods st \<and> truthy (operatingResetAt st)
                      then max 0 ((the (operatingResetAt st) - seconds nowms) * 1000)
                      else 0)
      in if waitTime > 0 then Some (Finite waitTime)
         else if isBlocked st then Some (baseDelay cfg)
         else None)"

definition record_event :: "limiter \<Rightarrow> rl_event \<Rightarrow> limiter" where
  "record_event L e = L\<lparr>trace := trace L @ [e]\<rparr>"

text \<open>
  \<open>array.sort(compare)\<close> is a stable sort: elements that compare equal keep their order.
  It is modelled by insertion, left to right, of each element behind the elements that do
  not compare greater.
\<close>

definition compare_requests :: "QueuedRequest \<Rightarrow> QueuedRequest \<Rightarrow> int" where
  "compare_requests a b =
     (if priority b - priority a \<noteq> 0 then priority b - priority a
      else timestamp a - timestamp b)"

fun insert_sorted :: "('a \<Rightarrow> 'a \<Rightarrow> int) \<Rightarrow> 'a \<Rightarrow> 'a list \<Rightarrow> 'a list" where
  "insert_sorted cmp x [] = [x]"
| "insert_sorted cmp x (y # ys) =
     (if cmp x y < 0 then x # y # ys else y # insert_sorted cmp x ys)"

definition array_sort :: "('a \<Rightarrow> 'a \<Rightarrow> int) \<Rightarrow> 'a list \<Rightarrow> 'a list" where
  "array_sort cmp xs = foldl (\<lambda>acc x. insert_sorted cmp x acc) [] xs"

definition reject_all :: "limiter \<Rightarrow> QueuedRequest list \<Rightarrow> string \<Rightarrow> limiter" where
  "reject_all L rs msg = L\<lparr>trace := trace L @ map (\<lambda>r. Rejected r msg) rs\<rparr>"

definition cleanupExpiredRequests :: "limiter \<Rightarrow> int \<Rightarrow> limiter" where
  "cleanupExpiredRequests L nowms =
     (let expiredRequests =
            filter (\<lambda>req. nowms - timestamp req > queueTimeout (config L)) (requestQueue L);
          L1 = reject_all L expiredRequests ''Request expired in queue''
      in L1\<lparr>requestQueue :=
               filter (\<lambda>req. nowms - timestamp req \<le> queueTimeout (config L)) (requestQueue L)\<rparr>)"

definition addToQueue :: "limiter \<Rightarrow> QueuedRequest \<Rightarrow> int \<Rightarrow> limiter" where
  "addToQueue L request nowms =
     (if int (length (requestQueue L)) \<ge> maxQueueSize (config L)
      then record_event L (Rejected request ''Rate limiter queue is full. Try again later.'')
      else cleanupExpiredRequests
             (L\<lparr>requestQueue := array_sort compare_requests (requestQueue L @ [request])\<rparr>)
             nowms)"

text \<open>
  \<open>executeQueuedRequest\<close> up to its \<open>await\<close>: the counter is incremented and the unit of
  work is invoked. \<open>awaited\<close> tells whether an activation of \<open>processQueue\<close> awaits the
  call.
\<close>

definition executeQueuedRequest_begin :: "limiter \<Rightarrow> QueuedRequest \<Rightarrow> bool \<Rightarrow> int \<Rightarrow> limiter" where
  "executeQueuedRequest_begin L request awaited nowms =
     (let L1 = L\<lparr>state := incrementCounter (state L) nowms\<rparr>;
          L2 = record_event L1 (Dispatched request)
      in L2\<lparr>running := running L2 @ [(request, awaited)]\<rparr>)"

text \<open>
  The body of the \<open>while\<close> loop of \<open>processQueue\<close>, from the loop test to the next
  \<open>await\<close> or to the end of the loop.
\<close>

function processQueue_loop :: "limiter \<Rightarrow> int \<Rightarrow> limiter" where
  "processQueue_loop L nowms =
     (case requestQueue L of
        [] \<Rightarrow> L\<lparr>processingQueue := False\<rparr>
      | request # rest \<Rightarrow>
          if nowms - timestamp request > queueTimeout (config L) then
            processQueue_loop
              (record_event (L\<lparr>requestQueue := rest\<rparr>) (Rejected request ''Request timeout in queue''))
              nowms
          else
            (let (admitted, st1) = canMakeRequest (config L) (state L) (req_method request) nowms;
                 L1 = L\<lparr>state := st1\<rparr>
             in if \<not> admitted then
                  (let L2 = (case waitForAvailability (config L1) (state L1) (req_method request) nowms of
                               Some d \<Rightarrow> record_event L1 (Sleeping d)
                             | None \<Rightarrow> L1)
                   in L2\<lparr>loops := AwaitingAvailability # loops L2\<rparr>)
                else
                  (let L2 = executeQueuedRequest_begin (L1\<lparr>requestQueue := rest\<rparr>) request True nowms
                   in L2\<lparr>loops := AwaitingRequest # loops L2\<rparr>)))"
  by pat_completeness auto
termination
  by (relation "measure (\<lambda>(L, nowms). length (requestQueue L))") (auto simp: record_event_def)

declare processQueue_loop.simps [simp del]

definition processQueue :: "limiter \<Rightarrow> int \<Rightarrow> limiter" where
  "processQueue L nowms =
     (if processingQueue L \<or> requestQueue L = [] then L
      else processQueue_loop (L\<lparr>processingQueue := True\<rparr>) nowms)"

definition executeRequest :: "limiter \<Rightarrow> nat \<Rightarrow> string \<Rightarrow> int \<Rightarrow> int \<Rightarrow> limiter" where
  "executeRequest L rid m prio nowms =
     (let queuedRequest =
            \<lparr> req_id = rid, req_method = m, priority = prio, timestamp = nowms, retryCount = 0 \<rparr>
      in if enableQueueing (config L)
         then processQueue (addToQueue L queuedRequest nowms) nowms
         else executeQueuedRequest_begin L queuedRequest False nowms)"

text \<open>
  \<open>handleRequestError\<close>. Its first statement reads \<open>error.message.includes\<close>: on a value
  without a string message it throws before anything is changed (\<open>None\<close>). A retry set with
  \<open>setTimeout\<close> is a pending timer and the caller's promise stays unsettled.
\<close>

definition handleRequestError :: "limiter \<Rightarrow> QueuedRequest \<Rightarrow> rejection \<Rightarrow> limiter option" where
  "handleRequestError L request err =
     (case err of
        NoMessage \<Rightarrow> None
      | Failure msg resetMatch \<Rightarrow>
          (let rateLimited = (str_includes msg ''QUERY_LIMIT_EXCEEDED'' \<or> str_includes msg ''503'');
               L1 = (if rateLimited then L\<lparr>state := (state L)\<lparr>isBlocked := True\<rparr>\<rparr> else L)
           in if rateLimited \<and> enableRetry (config L1)
                 \<and> retryCount request < maxRetries_rl (config L1)
              then (let d = calculateRetryDelay (config L1) (retryCount request)
                    in Some ((record_event L1 (RetryScheduled request d))
                               \<lparr>timers := timers L1 @ [(request, d)]\<rparr>))
              else
                (let L2 = (if str_includes msg ''operating_reset_at''
                           then L1\<lparr>state := handleResourceLimitExceeded (state L1)
                                               (req_method request) resetMatch\<rparr>
                           else L1)
                 in Some (record_event L2 (Rejected request msg)))))"

text \<open>
  \<open>executeQueuedRequest\<close> after its \<open>await\<close>: the unit of work returned a result
  (\<open>Inr\<close>) or rejected (\<open>Inl\<close>). The result is \<open>None\<close> when \<open>handleRequestError\<close> throws
  inside the \<open>catch\<close> block: then the promise of \<open>executeQueuedRequest\<close> rejects, and the
  caller's promise is neither resolved nor rejected.
\<close>

definition executeQueuedRequest_end ::
  "limiter \<Rightarrow> QueuedRequest \<Rightarrow> rejection + response_time option \<Rightarrow> int \<Rightarrow> limiter option" where
  "executeQueuedRequest_end L request settled nowms =
     (case settled of
        Inr result \<Rightarrow>
          Some (record_event
                  (L\<lparr>state := processResponseTimeInfo (config L) (state L) result nowms\<rparr>)
                  (Resolved request))
      | Inl err \<Rightarrow> handleRequestError L request err)"

definition destroy :: "limiter \<Rightarrow> limiter" where
  "destroy L =
     (let L1 = L\<lparr>counterDecreaseInterval := False\<rparr>;
          L2 = reject_all L1 (requestQueue L1) ''Rate limiter destroyed''
      in L2\<lparr>requestQueue := []\<rparr>)"

text \<open>
  What can happen to a limiter, one piece of uninterrupted code each: a call of
  \<open>executeRequest\<close>; the unit of work of a running request settles; the wait of a
  suspended \<open>processQueue\<close> ends and the loop goes on; a retry timer fires; the decay
  interval fires; \<open>destroy\<close> is called.
\<close>

datatype action =
    Submit nat string int int
  | Settle nat "rejection + response_time option" int
  | Wake int
  | RetryTimer nat int
  | DecayTick
  | Destroy

fun remove1_by :: "('a \<Rightarrow> bool) \<Rightarrow> 'a list \<Rightarrow> 'a list" where
  "remove1_by P [] = []"
| "remove1_by P (x # xs) = (if P x then xs else x # remove1_by P xs)"

text \<open>
  The unit of work of the running request \<open>rid\<close> settles. When \<open>executeQueuedRequest\<close>
  ends normally, an activation of \<open>processQueue\<close> that awaits it goes on with its loop.
  When it rejects, that activation ends by the exception, before its last statement
  \<open>this.processingQueue = false\<close>.
\<close>

definition settle :: "limiter \<Rightarrow> nat \<Rightarrow> rejection + response_time option \<Rightarrow> int \<Rightarrow> limiter" where
  "settle L rid settled nowms =
     (case find (\<lambda>e. req_id (fst e) = rid) (running L) of
        None \<Rightarrow> L
      | Some (request, awaited) \<Rightarrow>
          (let L1 = L\<lparr>running := remove1_by (\<lambda>e. req_id (fst e) = rid) (running L)\<rparr>
           in case executeQueuedRequest_end L1 request settled nowms of
                Some L2 \<Rightarrow>
                  if awaited \<and> AwaitingRequest \<in> set (loops L2)
                  then processQueue_loop (L2\<lparr>loops := remove1 AwaitingRequest (loops L2)\<rparr>) nowms
                  else L2
              | None \<Rightarrow>
                  (let L2 = record_event L1 (Uncaught request)
                   in if awaited \<and> AwaitingRequest \<in> set (loops L2)
                      then L2\<lparr>loops := remove1 AwaitingRequest (loops L2)\<rparr>
                      else L2)))"

definition wake :: "limiter \<Rightarrow> int \<Rightarrow> limiter" where
  "wake L nowms =
     (if AwaitingAvailability \<in> set (loops L)
      then processQueue_loop (L\<lparr>loops := remove1 AwaitingAvailability (loops L)\<rparr>) nowms
      else L)"

definition retryTimer :: "limiter \<Rightarrow> nat \<Rightarrow> int \<Rightarrow> limiter" where
  "retryTimer L rid nowms =
     (case find (\<lambda>e. req_id (fst e) = rid) (timers L) of
        None \<Rightarrow> L
      | Some (request, d) \<Rightarrow>
          (let L1 = L\<lparr>timers := remove1_by (\<lambda>e. req_id (fst e) = rid) (timers L)\<rparr>;
               request1 = request\<lparr>retryCount := retryCount request + 1\<rparr>
           in processQueue (addToQueue L1 request1 nowms) nowms))"

fun step :: "limiter \<Rightarrow> action \<Rightarrow> limiter" where
  "step L (Submit rid m prio nowms) = executeRequest L rid m prio nowms"
| "step L (Settle rid settled nowms) = settle L rid settled nowms"
| "step L (Wake nowms) = wake L nowms"
| "step L (RetryTimer rid nowms) = retryTimer L rid nowms"
| "step L DecayTick =
     (if counterDecreaseInterval L then L\<lparr>state := counterDecrease (config L) (state L)\<rparr> else L)"
| "step L Destroy = destroy L"

definition run :: "limiter \<Rightarrow> action list \<Rightarrow> limiter" where
  "run L actions = foldl step L actions"

text \<open>The priorities of the requests in the order their units of work were invoked.\<close>

definition service_order :: "limiter \<Rightarrow> int list" where
  "service_order L = concat (map (\<lambda>e. case e of Dispatched r \<Rightarrow> [priority r] | _ \<Rightarrow> []) (trace L))"


text \<open>What a caller waiting on a settled refresh promise ends with.\<close>

definition settled_outcome :: "string + TokenResponse \<Rightarrow> outcome" where
  "settled_outcome r =
     (case r of Inr newTokens \<Rightarrow> Returned (access_token newTokens) | Inl m \<Rightarrow> Threw m)"

section \<open>Notions used in the properties\<close>

text \<open>
  The invariant of the drain loop: at most one activation of \<open>processQueue\<close> is alive, and
  only while \<open>processingQueue\<close> is set. The strict form adds that \<open>processingQueue\<close> is set
  only while an activation is alive.
\<close>

definition loop_invariant :: "bool \<Rightarrow> limiter \<Rightarrow> bool" where
  "loop_invariant strict L =
     (length (loops L) \<le> 1 \<and> (loops L = [] \<or> processingQueue L)
      \<and> (strict \<longrightarrow> processingQueue L \<longrightarrow> loops L \<noteq> []))"

text \<open>An action in which no unit of work rejects with a value without a message.\<close>

fun with_message :: "action \<Rightarrow> bool" where
  "with_message (Settle rid (Inl NoMessage) nowms) = False"
| "with_message a = True"

text \<open>Concrete data for the examples.\<close>

definition sample_tokens :: TokenResponse where
  "sample_tokens = \<lparr>access_token = ''a0'', refresh_token = ''r0'', expires_in = 3600,
     scope = ''crm'', domain = ''example.bitrix24.com'',
     server_endpoint = ''https://oauth.bitrix.info/rest/''\<rparr>"

definition sample_session :: session where
  "sample_session =
     \<lparr>manager = \<lparr>tokens = Some sample_tokens, refreshPromise = None,
                  tokenIssuedAt = Some 1700000000\<rparr>,
      inflight = [], waiters = [], results = [], events = [], refreshCalls = 0\<rparr>"

definition blocked_state :: RateLimitState where
  "blocked_state = \<lparr> requestCounter = 3, lastRequestTime = 1700000000000, operatingTimeUsed = 0,
      operatingTimeWindow_st = 1700000000000, operatingResetAt = Some 1700000120,
      blockedMethods = {''crm.deal.list''}, isBlocked = False \<rparr>"

text \<open>A limiter with queueing disabled whose method \<open>crm.deal.list\<close> is blocked.\<close>

definition direct_limiter :: limiter where
  "direct_limiter =
     (BitrixRateLimiter (default_config\<lparr>enableQueueing := False\<rparr>) 1700000000000)
       \<lparr>state := blocked_state\<rparr>"




section \<open>Properties of the error classifier\<close>

lemma SYSTEM_ERRORS_httpStatus:
  "map_of SYSTEM_ERRORS c = Some e \<Longrightarrow> se_httpStatus e \<noteq> 0"
  by (auto simp: SYSTEM_ERRORS_def split: if_splits)

lemma SYSTEM_ERRORS_auth_not_retryable:
  "map_of SYSTEM_ERRORS c = Some e \<Longrightarrow> se_requiresAuth e \<Longrightarrow> \<not> se_isRetryable e"
  by (auto simp: SYSTEM_ERRORS_def split: if_splits)

lemma SYSTEM_ERRORS_auth_codes:
  "map_of SYSTEM_ERRORS c = Some e \<Longrightarrow>
   c \<in> set [''NO_AUTH_FOUND'', ''expired_token'', ''INVALID_CREDENTIALS''] \<Longrightarrow>
   \<not> se_isRetryable e"
  by (auto simp: SYSTEM_ERRORS_def split: if_splits)

lemma Object_prototype_keys_not_entries:
  "c \<in> set Object_prototype_keys \<Longrightarrow> map_of SYSTEM_ERRORS c = None"
proof -
  have "\<forall>k \<in> set Object_prototype_keys. map_of SYSTEM_ERRORS k = None"
    by (simp add: Object_prototype_keys_def SYSTEM_ERRORS_def)
  then show "c \<in> set Object_prototype_keys \<Longrightarrow> map_of SYSTEM_ERRORS c = None"
    by blast
qed

text \<open>
  C8. The body \<open>{error: 'constructor', error_description: 'x'}\<close> arrives with the
  transport status 400. The code \<open>constructor\<close> has no entry in the table, and the error
  is classified with \<open>isSystemError\<close> true: \<open>SYSTEM_ERRORS['constructor']\<close> is the
  property that the table inherits from \<open>Object.prototype\<close>, which is truthy.
\<close>

theorem mapApiError_inherited_code:
  "map_of SYSTEM_ERRORS ''constructor'' = None
   \<and> mapApiError \<lparr>error = ''constructor'', error_description = ''x''\<rparr> 400
       = \<lparr>code = ''constructor'', message = ''x'', httpStatus = 400, isSystemError = True,
          isRetryable = False, requiresAuth = False\<rparr>"
  by (simp add: mapApiError_def SYSTEM_ERRORS_get_def SYSTEM_ERRORS_def
        Object_prototype_keys_def Let_def)

text \<open>
  The same holds of each of the twelve names that an object literal inherits: none is an
  entry of the table, and each is classified as a system error, at every transport
  status.
\<close>

lemma mapApiError_inherited_codes:
  "c \<in> set Object_prototype_keys \<Longrightarrow>
   map_of SYSTEM_ERRORS c = None
   \<and> isSystemError (mapApiError \<lparr>error = c, error_description = d\<rparr> status)
   \<and> \<not> isRetryable (mapApiError \<lparr>error = c, error_description = d\<rparr> status)
   \<and> \<not> requiresAuth (mapApiError \<lparr>error = c, error_description = d\<rparr> status)
   \<and> httpStatus (mapApiError \<lparr>error = c, error_description = d\<rparr> status) = status"
  by (simp add: Object_prototype_keys_not_entries mapApiError_def SYSTEM_ERRORS_get_def Let_def)

text \<open>
  The rest of the classification is as described. A code with a table entry
  \<open>{isRetryable: true, isSystemError: true}\<close> is classified with those flags and the
  entry's \<open>httpStatus\<close>, whatever the transport status; a code that is neither an entry
  of the table nor one of the inherited names gets \<open>isRetryable\<close>, \<open>requiresAuth\<close> and
  \<open>isSystemError\<close> false and the transport status; a response with status 500 and no
  body is retryable.
\<close>

lemma mapApiError_known_code:
  "map_of SYSTEM_ERRORS c = Some e \<Longrightarrow> se_isRetryable e \<Longrightarrow> se_isSystemError e \<Longrightarrow>
   isRetryable (mapApiError \<lparr>error = c, error_description = d\<rparr> status)
   \<and> isSystemError (mapApiError \<lparr>error = c, error_description = d\<rparr> status)
   \<and> httpStatus (mapApiError \<lparr>error = c, error_description = d\<rparr> status) = se_httpStatus e"
  using SYSTEM_ERRORS_httpStatus[of c e]
  by (simp add: mapApiError_def SYSTEM_ERRORS_get_def Let_def)

lemma mapApiError_unknown_code:
  "map_of SYSTEM_ERRORS c = None \<Longrightarrow> c \<notin> set Object_prototype_keys \<Longrightarrow>
   \<not> isRetryable (mapApiError \<lparr>error = c, error_description = d\<rparr> status)
   \<and> \<not> requiresAuth (mapApiError \<lparr>error = c, error_description = d\<rparr> status)
   \<and> \<not> isSystemError (mapApiError \<lparr>error = c, error_description = d\<rparr> status)
   \<and> httpStatus (mapApiError \<lparr>error = c, error_description = d\<rparr> status) = status"
  by (simp add: mapApiError_def SYSTEM_ERRORS_get_def Let_def)

lemma mapHttpResponse_bodyless_500: "isRetryable (mapHttpResponse 500 None)"
  by (simp add: mapHttpResponse_def mapHttpStatus_def mk_details_def)

text \<open>
  No error that the classifier produces is both an authorization error and retryable,
  and the error made of a foreign exception is not retryable.
\<close>

lemma mapApiError_auth_not_retryable:
  "isAuthError (mapApiError body status) \<Longrightarrow> \<not> isRetryable (mapApiError body status)"
  using SYSTEM_ERRORS_auth_not_retryable SYSTEM_ERRORS_auth_codes
  by (auto simp: mapApiError_def isAuthError_def SYSTEM_ERRORS_get_def Let_def
        split: option.splits if_splits)

lemma classifier_auth_not_retryable:
  "isAuthError (mapHttpResponse status body) \<Longrightarrow> \<not> isRetryable (mapHttpResponse status body)"
  using SYSTEM_ERRORS_auth_not_retryable SYSTEM_ERRORS_auth_codes
  by (auto simp: mapHttpResponse_def mapApiError_def mapHttpStatus_def mk_details_def
        isAuthError_def SYSTEM_ERRORS_get_def Let_def split: option.splits if_splits)

lemma ensureBitrixError_not_retryable:
  "\<not> isRetryable (ensureBitrixError (ThrownOther m))"
  by (simp add: ensureBitrixError_def)

section \<open>Properties of the retry loop\<close>

lemma handleWithRetry_from_starts:
  "attempt \<le> maxRetries opts \<Longrightarrow>
   \<exists>r evs. handleWithRetry_from opts operation attempt lastError = (r, Attempt attempt # evs)"
  by (subst handleWithRetry_from.simps) (auto simp: Let_def split: sum.splits prod.splits)

text \<open>
  An attempt that fails with an error that is not retryable ends the loop: the error is
  rethrown, and neither hook runs, whatever \<open>requiresAuth\<close> says.
\<close>

lemma handleWithRetry_not_retryable:
  assumes "attempt \<le> maxRetries opts" and "operation attempt = Inl (ThrownBitrix e)"
    and "\<not> isRetryable e"
  shows "handleWithRetry_from opts operation attempt lastError = (Inl (Some e), [Attempt attempt])"
  using assms
  by (subst handleWithRetry_from.simps) (simp add: ensureBitrixError_def)

text \<open>
  C5. The retry loop with three retries, on a unit of work that fails with the classified
  error of an \<open>expired_token\<close> response, whose \<open>requiresAuth\<close> flag is true, while
  attempts remain: the first attempt is the only one, the error is rethrown, and the
  auth-required hook is not invoked.
\<close>

theorem handleWithRetry_expired_token:
  "handleWithRetry \<lparr>maxRetries = 3, retryDelay = 1000\<rparr>
     (\<lambda>attempt. Inl (ThrownBitrix (mapApiError
         \<lparr>error = ''expired_token'',
          error_description = ''The access token provided has expired.''\<rparr> 401)) :: thrown + unit)
   = (Inl (Some \<lparr>code = ''expired_token'', message = ''The access token provided has expired.'',
                 httpStatus = 401, isSystemError = True, isRetryable = False,
                 requiresAuth = True\<rparr>),
      [Attempt 0])"
  unfolding handleWithRetry_def
  by (subst handleWithRetry_from.simps)
     (simp add: ensureBitrixError_def mapApiError_def SYSTEM_ERRORS_get_def SYSTEM_ERRORS_def)

text \<open>
  The branch of the loop that invokes the auth-required hook and goes to the next attempt
  at once is taken by an error that is an authorization error and retryable.
\<close>

lemma handleWithRetry_auth_branch:
  assumes "attempt < maxRetries opts" and "operation attempt = Inl (ThrownBitrix e)"
    and "isRetryable e" and "isAuthError e"
  shows "\<exists>r evs. handleWithRetry_from opts operation (attempt + 1) (Some e)
                        = (r, Attempt (attempt + 1) # evs)
                   \<and> handleWithRetry_from opts operation attempt lastError
                        = (r, Attempt attempt # OnAuthRequired e # Attempt (attempt + 1) # evs)"
proof -
  obtain r evs where next_attempt:
      "handleWithRetry_from opts operation (attempt + 1) (Some e) = (r, Attempt (attempt + 1) # evs)"
    using handleWithRetry_from_starts[of "attempt + 1" opts operation "Some e"] assms(1) by auto
  have "handleWithRetry_from opts operation attempt lastError
      = (r, Attempt attempt # OnAuthRequired e # Attempt (attempt + 1) # evs)"
    using assms next_attempt
    by (subst handleWithRetry_from.simps) (simp add: ensureBitrixError_def)
  then show ?thesis using next_attempt by blast
qed

text \<open>
  No error of the classifier takes that branch: in a run of the loop whose unit of work
  throws only errors made by \<open>mapApiError\<close> or \<open>mapHttpResponse\<close>, or foreign exceptions,
  the auth-required hook is never invoked.
\<close>

lemma hook_needs_retryable_auth_error:
  assumes "\<And>n t. operation n = Inl t \<Longrightarrow>
             isAuthError (ensureBitrixError t) \<Longrightarrow> \<not> isRetryable (ensureBitrixError t)"
  shows "OnAuthRequired e \<notin> set (snd (handleWithRetry_from opts operation attempt lastError))"
proof (induction "nat (maxRetries opts + 1 - attempt)" arbitrary: attempt lastError)
  case 0
  then have "\<not> attempt \<le> maxRetries opts" by simp
  then show ?case by (subst handleWithRetry_from.simps) simp
next
  case (Suc k)
  then have le: "attempt \<le> maxRetries opts" and k: "k = nat (maxRetries opts + 1 - (attempt + 1))"
    by simp_all
  show ?case
  proof (cases "operation attempt")
    case (Inr v)
    then show ?thesis using le by (subst handleWithRetry_from.simps) simp
  next
    case (Inl t)
    let ?e = "ensureBitrixError t"
    show ?thesis
    proof (cases "attempt = maxRetries opts \<or> \<not> isRetryable ?e")
      case True
      then show ?thesis
        using le Inl by (subst handleWithRetry_from.simps) (auto simp: Let_def)
    next
      case False
      then have notauth: "\<not> isAuthError ?e" using assms[OF Inl] by blast
      have IH: "OnAuthRequired e
          \<notin> set (snd (handleWithRetry_from opts operation (attempt + 1) (Some ?e)))"
        using Suc.hyps(1)[OF k] .
      show ?thesis
        using le Inl False notauth IH
        by (subst handleWithRetry_from.simps) (auto simp: Let_def split: prod.splits)
    qed
  qed
qed

lemma hook_never_invoked:
  assumes "\<And>n t. operation n = Inl t \<Longrightarrow>
             (\<exists>body status. t = ThrownBitrix (mapApiError body status))
             \<or> (\<exists>status body. t = ThrownBitrix (mapHttpResponse status body))
             \<or> (\<exists>m. t = ThrownOther m)"
  shows "OnAuthRequired e \<notin> set (snd (handleWithRetry opts operation))"
  unfolding handleWithRetry_def
proof (rule hook_needs_retryable_auth_error)
  fix n t
  assume "operation n = Inl t" and auth: "isAuthError (ensureBitrixError t)"
  from assms[OF this(1)] show "\<not> isRetryable (ensureBitrixError t)"
  proof (elim disjE exE)
    fix body status assume "t = ThrownBitrix (mapApiError body status)"
    then show ?thesis using auth mapApiError_auth_not_retryable[of body status]
      by (simp add: ensureBitrixError_def)
  next
    fix status body assume "t = ThrownBitrix (mapHttpResponse status body)"
    then show ?thesis using auth classifier_auth_not_retryable[of status body]
      by (simp add: ensureBitrixError_def)
  next
    fix m assume "t = ThrownOther m"
    then show ?thesis by (simp add: ensureBitrixError_not_retryable)
  qed
qed

section \<open>Properties of the credential manager\<close>

text \<open>
  C9. For a malformed envelope (no \<open>access_token\<close>, no \<open>domain\<close>, or \<open>expires_in\<close> not
  positive) \<open>setTokens\<close> throws the validation error, and the manager's fields are what
  they were before the call.
\<close>

theorem setTokens_atomic:
  "access_token t = [] \<or> domain t = [] \<or> expires_in t \<le> 0 \<Longrightarrow>
   \<exists>msg. validateTokenStructure t = Inl msg \<and> setTokens tm t nowms = (Inl msg, tm)"
  by (auto simp: setTokens_def validateTokenStructure_def Let_def)

theorem setTokens_atomic_witness:
  "expires_in \<lparr>access_token = ''a1'', refresh_token = ''r1'', expires_in = - 5, scope = ''crm'',
      domain = ''example.bitrix24.com'', server_endpoint = ''https://oauth.bitrix.info/rest/''\<rparr> \<le> 0
   \<and> (\<exists>msg. setTokens
        \<lparr>tokens = Some \<lparr>access_token = ''a0'', refresh_token = ''r0'', expires_in = 3600,
             scope = ''crm'', domain = ''example.bitrix24.com'',
             server_endpoint = ''https://oauth.bitrix.info/rest/''\<rparr>,
         refreshPromise = None, tokenIssuedAt = Some 1700000000\<rparr>
        \<lparr>access_token = ''a1'', refresh_token = ''r1'', expires_in = - 5, scope = ''crm'',
         domain = ''example.bitrix24.com'', server_endpoint = ''https://oauth.bitrix.info/rest/''\<rparr>
        1700000100000
      = (Inl msg,
         \<lparr>tokens = Some \<lparr>access_token = ''a0'', refresh_token = ''r0'', expires_in = 3600,
             scope = ''crm'', domain = ''example.bitrix24.com'',
             server_endpoint = ''https://oauth.bitrix.info/rest/''\<rparr>,
          refreshPromise = None, tokenIssuedAt = Some 1700000000\<rparr>))"
  using setTokens_atomic[of
      "\<lparr>access_token = ''a1'', refresh_token = ''r1'', expires_in = - 5, scope = ''crm'',
        domain = ''example.bitrix24.com'', server_endpoint = ''https://oauth.bitrix.info/rest/''\<rparr>"
      "\<lparr>tokens = Some \<lparr>access_token = ''a0'', refresh_token = ''r0'', expires_in = 3600,
             scope = ''crm'', domain = ''example.bitrix24.com'',
             server_endpoint = ''https://oauth.bitrix.info/rest/''\<rparr>,
         refreshPromise = None, tokenIssuedAt = Some 1700000000\<rparr>"
      1700000100000]
  by auto

text \<open>
  C2. The token endpoint answers the refresh with \<open>invalid_grant\<close>. \<open>oauth.refreshToken\<close>
  throws an error whose message does not contain \<open>invalid_grant\<close>, so \<open>refreshTokens\<close>
  rethrows it as it is and leaves every field of the manager, the held tokens included,
  as it was.
\<close>

theorem refresh_invalid_grant_keeps_tokens:
  "refreshTokens_settle tm
     (oauth_refreshToken (NotOk status statusText
        (Some \<lparr>error = ''invalid_grant'', error_description = d\<rparr>))) nowms
   = (Inl ''Refresh token expired or invalid. Re-authentication required.'', tm)"
  by (simp add: refreshTokens_settle_def oauth_refreshToken_def)

text \<open>A refresh failure whose message does not contain \<open>invalid_grant\<close> is passed on
  unchanged and the held credentials stay; one whose message contains it clears them.\<close>

lemma refreshTokens_settle_failure:
  "refreshTokens_settle tm (Inl m) nowms =
     (if str_includes m ''invalid_grant''
      then (Inl ''Refresh token expired. Re-authentication required.'',
            tm\<lparr>tokens := None, tokenIssuedAt := None, refreshPromise := None\<rparr>)
      else (Inl m, tm))"
  by (simp add: refreshTokens_settle_def clearTokens_def)

subsection \<open>Expiry and the refresh margin\<close>

lemma isTokenExpiringSoon_cong:
  "isTokenExpiringSoon (m\<lparr>refreshPromise := x\<rparr>) nowms = isTokenExpiringSoon m nowms"
  by (simp add: isTokenExpiringSoon_def isTokenExpired_def split: option.splits)

lemma getValidToken_call_join:
  assumes "tokens (manager S) = Some t" "refresh_token t \<noteq> []"
    "refreshPromise (manager S) = Some p" "isTokenExpiringSoon (manager S) nowms"
  shows "getValidToken_call S c nowms = S\<lparr>waiters := waiters S @ [(c, p)]\<rparr>"
  using assms by (simp add: getValidToken_call_def)

lemma getValidToken_call_first:
  assumes "tokens (manager S) = Some t" "refresh_token t \<noteq> []"
    "refreshPromise (manager S) = None" "isTokenExpiringSoon (manager S) nowms"
  shows "getValidToken_call S c nowms =
     S\<lparr>refreshCalls := Suc (refreshCalls S),
       inflight := inflight S @ [Suc (refreshCalls S)],
       manager := (manager S)\<lparr>refreshPromise := Some (Suc (refreshCalls S))\<rparr>,
       waiters := waiters S @ [(c, Suc (refreshCalls S))]\<rparr>"
  using assms by (simp add: getValidToken_call_def refreshTokens_begin_def Let_def)

lemma getValidToken_calls_join:
  assumes "tokens (manager S) = Some t" "refresh_token t \<noteq> []"
    "refreshPromise (manager S) = Some p"
    "\<forall>c \<in> set calls. isTokenExpiringSoon (manager S) (snd c)"
  shows "getValidToken_calls S calls = S\<lparr>waiters := waiters S @ map (\<lambda>c. (fst c, p)) calls\<rparr>"
  using assms
proof (induction calls arbitrary: S)
  case Nil
  then show ?case by (simp add: getValidToken_calls_def)
next
  case (Cons c calls)
  let ?S' = "S\<lparr>waiters := waiters S @ [(fst c, p)]\<rparr>"
  have step: "getValidToken_call S (fst c) (snd c) = ?S'"
    using Cons.prems by (simp add: getValidToken_call_join)
  have "getValidToken_calls ?S' calls = ?S'\<lparr>waiters := waiters ?S' @ map (\<lambda>c. (fst c, p)) calls\<rparr>"
    using Cons.prems by (intro Cons.IH) (simp_all add: isTokenExpiringSoon_cong)
  then show ?case
    using step by (simp add: getValidToken_calls_def)
qed

lemma getValidToken_calls_first:
  assumes "tokens (manager S) = Some t" "refresh_token t \<noteq> []"
    "refreshPromise (manager S) = None" "calls \<noteq> []"
    "\<forall>c \<in> set calls. isTokenExpiringSoon (manager S) (snd c)"
  shows "getValidToken_calls S calls =
     S\<lparr>refreshCalls := Suc (refreshCalls S),
       inflight := inflight S @ [Suc (refreshCalls S)],
       manager := (manager S)\<lparr>refreshPromise := Some (Suc (refreshCalls S))\<rparr>,
       waiters := waiters S @ map (\<lambda>c. (fst c, Suc (refreshCalls S))) calls\<rparr>"
proof -
  obtain c rest where calls: "calls = c # rest"
    using assms(4) by (cases calls) auto
  let ?p = "Suc (refreshCalls S)"
  let ?S' = "S\<lparr>refreshCalls := ?p, inflight := inflight S @ [?p],
       manager := (manager S)\<lparr>refreshPromise := Some ?p\<rparr>,
       waiters := waiters S @ [(fst c, ?p)]\<rparr>"
  have step: "getValidToken_call S (fst c) (snd c) = ?S'"
    using assms calls by (simp add: getValidToken_call_first)
  have "getValidToken_calls ?S' rest = ?S'\<lparr>waiters := waiters ?S' @ map (\<lambda>c. (fst c, ?p)) rest\<rparr>"
    using assms calls
    by (intro getValidToken_calls_join[where t = t]) (simp_all add: isTokenExpiringSoon_cong)
  then show ?thesis
    using step calls by (simp add: getValidToken_calls_def)
qed

lemma isTokenExpiringSoon_iff:
  assumes "tokens m = Some t" and "tokenIssuedAt m = Some T" and "T \<noteq> 0"
  shows "isTokenExpiringSoon m nowms \<longleftrightarrow> T + expires_in t - 5 * 60 \<le> nowms div 1000"
  using assms by (simp add: isTokenExpiringSoon_def isTokenExpired_def Let_def)

lemma getValidToken_call_usable:
  assumes "tokens (manager S) = Some t" and "\<not> isTokenExpiringSoon (manager S) nowms"
  shows "getValidToken_call S c nowms = finish S c (Returned (access_token t))"
  using assms by (simp add: getValidToken_call_def)

text \<open>
  C4. With credentials held that were issued at second \<open>T\<close> of the clock (\<open>T\<close> is a Unix
  time, not 0), the token is usable exactly while the clock's second is below
  \<open>T + expires_in - 300\<close>. With \<open>expires_in = 3600\<close>: a call at second \<open>T + 3595\<close> finds
  the token expiring, sends one refresh request and waits for it; a call at second
  \<open>T + 1000\<close> sends nothing and returns the held access token.
\<close>

theorem refresh_margin_law:
  assumes "tokens (manager S) = Some t" and "tokenIssuedAt (manager S) = Some T" and "T \<noteq> 0"
  shows "(\<not> isTokenExpiringSoon (manager S) nowms \<longleftrightarrow> nowms div 1000 < T + expires_in t - 5 * 60)
    \<and> (expires_in t = 3600 \<and> late div 1000 = T + 3595 \<and> refresh_token t \<noteq> []
         \<and> refreshPromise (manager S) = None \<longrightarrow>
        isTokenExpiringSoon (manager S) late \<and>
        getValidToken_call S c late =
          S\<lparr>refreshCalls := Suc (refreshCalls S),
            inflight := inflight S @ [Suc (refreshCalls S)],
            manager := (manager S)\<lparr>refreshPromise := Some (Suc (refreshCalls S))\<rparr>,
            waiters := waiters S @ [(c, Suc (refreshCalls S))]\<rparr>)
    \<and> (expires_in t = 3600 \<and> early div 1000 = T + 1000 \<longrightarrow>
        \<not> isTokenExpiringSoon (manager S) early \<and>
        getValidToken_call S c early = finish S c (Returned (access_token t)))"
proof (intro conjI impI)
  show "(\<not> isTokenExpiringSoon (manager S) nowms) = (nowms div 1000 < T + expires_in t - 5 * 60)"
    using isTokenExpiringSoon_iff[OF assms, of nowms] by auto
next
  assume h: "expires_in t = 3600 \<and> late div 1000 = T + 3595 \<and> refresh_token t \<noteq> []
         \<and> refreshPromise (manager S) = None"
  then show soon: "isTokenExpiringSoon (manager S) late"
    using isTokenExpiringSoon_iff[OF assms, of late] by simp
  show "getValidToken_call S c late =
          S\<lparr>refreshCalls := Suc (refreshCalls S),
            inflight := inflight S @ [Suc (refreshCalls S)],
            manager := (manager S)\<lparr>refreshPromise := Some (Suc (refreshCalls S))\<rparr>,
            waiters := waiters S @ [(c, Suc (refreshCalls S))]\<rparr>"
    using h soon assms(1) by (intro getValidToken_call_first[where t = t]) simp_all
next
  assume h: "expires_in t = 3600 \<and> early div 1000 = T + 1000"
  then show usable: "\<not> isTokenExpiringSoon (manager S) early"
    using isTokenExpiringSoon_iff[OF assms, of early] by simp
  show "getValidToken_call S c early = finish S c (Returned (access_token t))"
    using usable assms(1) by (rule getValidToken_call_usable[rotated])
qed

theorem refresh_margin_law_witness:
  "tokens (manager sample_session) = Some sample_tokens
   \<and> tokenIssuedAt (manager sample_session) = Some 1700000000
   \<and> isTokenExpiringSoon (manager sample_session) 1700003595250
   \<and> refreshCalls (getValidToken_call sample_session 1 1700003595250) = 1
   \<and> waiters (getValidToken_call sample_session 1 1700003595250) = [(1, 1)]
   \<and> \<not> isTokenExpiringSoon (manager sample_session) 1700001000000
   \<and> getValidToken_call sample_session 1 1700001000000
       = finish sample_session 1 (Returned ''a0'')"
proof -
  have h: "tokens (manager sample_session) = Some sample_tokens"
    "tokenIssuedAt (manager sample_session) = Some 1700000000" "(1700000000::int) \<noteq> 0"
    by (simp_all add: sample_session_def)
  show ?thesis
    using h refresh_margin_law[OF h, where nowms = 0 and late = 1700003595250 and c = 1
        and early = 1700001000000]
    by (simp add: sample_session_def sample_tokens_def)
qed

subsection \<open>Single-flight refresh\<close>

lemma resume_fields:
  "results (getValidToken_resume S c r) = results S @ [(c, settled_outcome r)]"
  "refreshPromise (manager (getValidToken_resume S c r)) = None"
  "refreshCalls (getValidToken_resume S c r) = refreshCalls S"
  "waiters (getValidToken_resume S c r) = waiters S"
  "inflight (getValidToken_resume S c r) = inflight S"
  by (simp_all add: getValidToken_resume_def settled_outcome_def finish_def emit_def Let_def split: sum.splits)

lemma resume_all_fields:
  "results (foldl (\<lambda>S' w. getValidToken_resume S' (fst w) r) S ws)
     = results S @ map (\<lambda>w. (fst w, settled_outcome r)) ws"
  "refreshCalls (foldl (\<lambda>S' w. getValidToken_resume S' (fst w) r) S ws) = refreshCalls S"
  "waiters (foldl (\<lambda>S' w. getValidToken_resume S' (fst w) r) S ws) = waiters S"
  "inflight (foldl (\<lambda>S' w. getValidToken_resume S' (fst w) r) S ws) = inflight S"
  "ws \<noteq> [] \<Longrightarrow> refreshPromise (manager (foldl (\<lambda>S' w. getValidToken_resume S' (fst w) r) S ws)) = None"
  by (induction ws arbitrary: S rule: rev_induct) (simp_all add: resume_fields)

text \<open>
  C1. The manager holds credentials with a refresh token and no refresh is in flight.
  \<open>N \<ge> 1\<close> calls of \<open>getValidToken\<close> begin one after the other, each finding the token
  expiring. Then one call of \<open>oauth.refreshToken\<close> is made; all callers wait on its
  promise; when the reply arrives no further call is made, the in-flight marker is
  cleared, and all callers end alike: with the new access token when the refresh
  succeeded, with the same error when it failed.
\<close>

theorem single_flight_refresh:
  assumes "tokens (manager S) = Some t" and "refresh_token t \<noteq> []"
    and "refreshPromise (manager S) = None" and "inflight S = []" and "waiters S = []"
    and "calls \<noteq> []"
    and "\<forall>c \<in> set calls. isTokenExpiringSoon (manager S) (snd c)"
  shows "(let p = Suc (refreshCalls S);
              S1 = getValidToken_calls S calls;
              S2 = refresh_reply S1 p reply nowms
          in refreshCalls S1 = Suc (refreshCalls S) \<and> inflight S1 = [p]
           \<and> refreshPromise (manager S1) = Some p
           \<and> waiters S1 = map (\<lambda>c. (fst c, p)) calls \<and> results S1 = results S
           \<and> refreshCalls S2 = Suc (refreshCalls S) \<and> inflight S2 = [] \<and> waiters S2 = []
           \<and> refreshPromise (manager S2) = None
           \<and> (\<forall>newTokens. oauth_refreshToken reply = Inr newTokens \<longrightarrow>
                results S2 = results S @ map (\<lambda>c. (fst c, Returned (access_token newTokens))) calls)
           \<and> (\<forall>m. oauth_refreshToken reply = Inl m \<longrightarrow>
                (\<exists>m'. results S2 = results S @ map (\<lambda>c. (fst c, Threw m')) calls)))"
proof -
  let ?p = "Suc (refreshCalls S)"
  let ?S1 = "getValidToken_calls S calls"
  have S1: "?S1 = S\<lparr>refreshCalls := ?p, inflight := inflight S @ [?p],
       manager := (manager S)\<lparr>refreshPromise := Some ?p\<rparr>,
       waiters := waiters S @ map (\<lambda>c. (fst c, ?p)) calls\<rparr>"
    using assms(1,2,3,6,7) by (rule getValidToken_calls_first)
  obtain settled m1 where st: "refreshTokens_settle (manager ?S1) (oauth_refreshToken reply) nowms = (settled, m1)"
    by (cases "refreshTokens_settle (manager ?S1) (oauth_refreshToken reply) nowms")
  have woken: "filter (\<lambda>w. snd w = ?p) (waiters ?S1) = map (\<lambda>c. (fst c, ?p)) calls"
    using assms by (simp add: S1 filter_map o_def)
  have rest: "filter (\<lambda>w. snd w \<noteq> ?p) (waiters ?S1) = []"
    using assms by (simp add: S1 filter_map o_def)
  let ?S2 = "refresh_reply ?S1 ?p reply nowms"
  have S2: "?S2 = foldl (\<lambda>S' w. getValidToken_resume S' (fst w) settled)
        (?S1\<lparr>manager := m1, inflight := [], waiters := []\<rparr>) (map (\<lambda>c. (fst c, ?p)) calls)"
    using assms st woken rest unfolding refresh_reply_def by (simp add: S1 Let_def)
  have ne: "map (\<lambda>c. (fst c, ?p)) calls \<noteq> []" using assms by simp
  have r: "results ?S2 = results S @ map (\<lambda>c. (fst c, settled_outcome settled)) calls"
    unfolding S2 by (simp add: resume_all_fields S1 o_def)
  have ok: "\<And>newTokens. oauth_refreshToken reply = Inr newTokens \<Longrightarrow> settled_outcome settled = Returned (access_token newTokens)"
    using st by (auto simp: refreshTokens_settle_def settled_outcome_def split: sum.splits)
  have ko: "\<And>m. oauth_refreshToken reply = Inl m \<Longrightarrow> \<exists>m'. settled_outcome settled = Threw m'"
    using st by (auto simp: refreshTokens_settle_def settled_outcome_def split: if_splits sum.splits)
  have a: "refreshCalls ?S2 = ?p" "inflight ?S2 = []" "waiters ?S2 = []" "refreshPromise (manager ?S2) = None"
    unfolding S2 using ne by (simp_all add: resume_all_fields S1)
  show ?thesis
    unfolding Let_def using a r ok ko assms by (auto simp: S1)
qed

theorem single_flight_refresh_witness:
  "(let calls = [(1, 1700003595250), (2, 1700003595251), (3, 1700003596000)];
        S1 = getValidToken_calls sample_session calls;
        S2 = refresh_reply S1 1
               (OkJson (sample_tokens\<lparr>access_token := ''a1'', refresh_token := ''r1''\<rparr>))
               1700003597000
    in refreshCalls S1 = 1 \<and> waiters S1 = [(1, 1), (2, 1), (3, 1)]
     \<and> refreshCalls S2 = 1 \<and> refreshPromise (manager S2) = None
     \<and> results S2 = [(1, Returned ''a1''), (2, Returned ''a1''), (3, Returned ''a1'')])"
proof -
  let ?calls = "[(1, 1700003595250), (2, 1700003595251), (3, 1700003596000)] :: (nat \<times> int) list"
  have h: "tokens (manager sample_session) = Some sample_tokens"
    "refresh_token sample_tokens \<noteq> []"
    "refreshPromise (manager sample_session) = None"
    "inflight sample_session = []" "waiters sample_session = []"
    "?calls \<noteq> []"
    "\<forall>c \<in> set ?calls. isTokenExpiringSoon (manager sample_session) (snd c)"
    by (simp_all add: sample_session_def sample_tokens_def isTokenExpiringSoon_def
          isTokenExpired_def)
  have ok: "oauth_refreshToken (OkJson (sample_tokens\<lparr>access_token := ''a1'', refresh_token := ''r1''\<rparr>))
      = Inr (sample_tokens\<lparr>access_token := ''a1'', refresh_token := ''r1''\<rparr>)"
    by (simp add: oauth_refreshToken_def sample_tokens_def)
  show ?thesis
    using single_flight_refresh[OF h,
        of "OkJson (sample_tokens\<lparr>access_token := ''a1'', refresh_token := ''r1''\<rparr>)" 1700003597000]
      ok
    by (simp add: Let_def sample_session_def)
qed

section \<open>Properties of the rate limiter\<close>

subsection \<open>Admission\<close>





lemma processQueue_loop_Nil:
  "requestQueue L = [] \<Longrightarrow> processQueue_loop L nowms = L\<lparr>processingQueue := False\<rparr>"
  by (subst processQueue_loop.simps) simp

lemma processQueue_loop_Cons:
  "requestQueue L = request # rest \<Longrightarrow>
   processQueue_loop L nowms =
     (if nowms - timestamp request > queueTimeout (config L) then
        processQueue_loop
          (record_event (L\<lparr>requestQueue := rest\<rparr>) (Rejected request ''Request timeout in queue''))
          nowms
      else
        (let (admitted, st1) = canMakeRequest (config L) (state L) (req_method request) nowms;
             L1 = L\<lparr>state := st1\<rparr>
         in if \<not> admitted then
              (let L2 = (case waitForAvailability (config L1) (state L1) (req_method request) nowms of
                           Some d \<Rightarrow> record_event L1 (Sleeping d)
                         | None \<Rightarrow> L1)
               in L2\<lparr>loops := AwaitingAvailability # loops L2\<rparr>)
            else
              (let L2 = executeQueuedRequest_begin (L1\<lparr>requestQueue := rest\<rparr>) request True nowms
               in L2\<lparr>loops := AwaitingRequest # loops L2\<rparr>)))"
  by (subst processQueue_loop.simps) simp

text \<open>The equations that evaluate a run of the limiter on concrete actions.\<close>

lemmas eval_defs = run_def executeRequest_def addToQueue_def array_sort_def
  compare_requests_def cleanupExpiredRequests_def reject_all_def processQueue_def
  processQueue_loop_Nil processQueue_loop_Cons canMakeRequest_def
  executeQueuedRequest_begin_def incrementCounter_def record_event_def settle_def
  executeQueuedRequest_end_def processResponseTimeInfo_def handleRequestError_def
  handleResourceLimitExceeded_def BitrixRateLimiter_def default_config_def truthy_def
  seconds_def Let_def service_order_def




subsection \<open>Submission without a queue\<close>

lemma executeRequest_direct:
  "\<not> enableQueueing (config L) \<Longrightarrow>
   executeRequest L rid m prio nowms =
     executeQueuedRequest_begin L
       \<lparr>req_id = rid, req_method = m, priority = prio, timestamp = nowms, retryCount = 0\<rparr>
       False nowms"
  by (simp add: executeRequest_def)

text \<open>
  C6. Queueing is disabled and the method is blocked until a later instant, so
  \<open>canMakeRequest\<close> answers false. \<open>executeRequest\<close> invokes the unit of work at once:
  the counter goes from 3 to 4, the only event is the dispatch, there is no wait and no
  activation of \<open>processQueue\<close>.
\<close>

theorem executeRequest_direct_ignores_admission:
  "\<not> fst (canMakeRequest (config direct_limiter) (state direct_limiter)
            ''crm.deal.list'' 1700000001000)
   \<and> trace (executeRequest direct_limiter 1 ''crm.deal.list'' 0 1700000001000)
       = [Dispatched \<lparr>req_id = 1, req_method = ''crm.deal.list'', priority = 0,
                       timestamp = 1700000001000, retryCount = 0\<rparr>]
   \<and> requestCounter (state (executeRequest direct_limiter 1 ''crm.deal.list'' 0 1700000001000)) = 4
   \<and> loops (executeRequest direct_limiter 1 ''crm.deal.list'' 0 1700000001000) = []"
  by (simp add: direct_limiter_def blocked_state_def BitrixRateLimiter_def default_config_def
        canMakeRequest_def truthy_def seconds_def executeRequest_def
        executeQueuedRequest_begin_def incrementCounter_def record_event_def Let_def)

subsection \<open>The drain loop\<close>

lemma record_event_fields [simp]:
  "processingQueue (record_event L e) = processingQueue L"
  "loops (record_event L e) = loops L"
  "requestQueue (record_event L e) = requestQueue L"
  "config (record_event L e) = config L"
  "state (record_event L e) = state L"
  "trace (record_event L e) = trace L @ [e]"
  by (simp_all add: record_event_def)

lemma reject_all_fields [simp]:
  "processingQueue (reject_all L rs msg) = processingQueue L"
  "loops (reject_all L rs msg) = loops L"
  "requestQueue (reject_all L rs msg) = requestQueue L"
  by (simp_all add: reject_all_def)

lemma executeQueuedRequest_begin_fields [simp]:
  "processingQueue (executeQueuedRequest_begin L r a nowms) = processingQueue L"
  "loops (executeQueuedRequest_begin L r a nowms) = loops L"
  "requestQueue (executeQueuedRequest_begin L r a nowms) = requestQueue L"
  "trace (executeQueuedRequest_begin L r a nowms) = trace L @ [Dispatched r]"
  by (simp_all add: executeQueuedRequest_begin_def Let_def)

lemma processQueue_loop_outcome:
  "(requestQueue (processQueue_loop L nowms) = []
      \<and> \<not> processingQueue (processQueue_loop L nowms)
      \<and> loops (processQueue_loop L nowms) = loops L)
   \<or> (processingQueue (processQueue_loop L nowms) = processingQueue L
      \<and> (\<exists>s. loops (processQueue_loop L nowms) = s # loops L))"
proof (induction L nowms rule: processQueue_loop.induct)
  case (1 L nowms)
  show ?case
  proof (cases "requestQueue L")
    case Nil
    then show ?thesis by (simp add: processQueue_loop_Nil)
  next
    case (Cons request rest)
    show ?thesis
    proof (cases "nowms - timestamp request > queueTimeout (config L)")
      case True
      let ?L1 = "record_event (L\<lparr>requestQueue := rest\<rparr>) (Rejected request ''Request timeout in queue'')"
      have eq: "processQueue_loop L nowms = processQueue_loop ?L1 nowms"
        using Cons True by (subst processQueue_loop.simps) simp
      show ?thesis
        using "1.IH"[OF Cons True] unfolding eq by simp
    next
      case False
      then show ?thesis
        using Cons
        by (subst (1 2 3 4 5) processQueue_loop.simps)
           (auto simp: Let_def split: prod.splits option.splits)
    qed
  qed
qed

lemma cleanupExpiredRequests_fields [simp]:
  "processingQueue (cleanupExpiredRequests L nowms) = processingQueue L"
  "loops (cleanupExpiredRequests L nowms) = loops L"
  by (simp_all add: cleanupExpiredRequests_def Let_def)

lemma addToQueue_fields [simp]:
  "processingQueue (addToQueue L r nowms) = processingQueue L"
  "loops (addToQueue L r nowms) = loops L"
  by (simp_all add: addToQueue_def)

lemma destroy_fields [simp]:
  "processingQueue (destroy L) = processingQueue L"
  "loops (destroy L) = loops L"
  by (simp_all add: destroy_def Let_def)

text \<open>
  \<open>handleRequestError\<close> throws exactly on a rejection without a message; when it returns,
  it has touched neither the flag nor the loop.
\<close>

lemma handleRequestError_throws:
  "handleRequestError L r err = None \<longleftrightarrow> err = NoMessage"
  by (simp add: handleRequestError_def Let_def split: rejection.splits)

lemma handleRequestError_fields:
  "handleRequestError L r err = Some L1 \<Longrightarrow>
   processingQueue L1 = processingQueue L \<and> loops L1 = loops L"
  by (auto simp: handleRequestError_def Let_def split: rejection.splits if_splits)

lemma executeQueuedRequest_end_throws:
  "executeQueuedRequest_end L r settled nowms = None \<longleftrightarrow> settled = Inl NoMessage"
  by (simp add: executeQueuedRequest_end_def handleRequestError_throws split: sum.splits)

lemma executeQueuedRequest_end_fields:
  "executeQueuedRequest_end L r settled nowms = Some L1 \<Longrightarrow>
   processingQueue L1 = processingQueue L \<and> loops L1 = loops L"
  by (auto simp: executeQueuedRequest_end_def dest: handleRequestError_fields split: sum.splits)

lemma loop_invariant_fields:
  "processingQueue L' = processingQueue L \<Longrightarrow> loops L' = loops L \<Longrightarrow>
   loop_invariant strict L \<Longrightarrow> loop_invariant strict L'"
  by (simp add: loop_invariant_def)

lemma processQueue_guard:
  "processingQueue L \<or> requestQueue L = [] \<Longrightarrow> processQueue L nowms = L"
  by (simp add: processQueue_def)

lemma processQueue_loop_invariant:
  assumes "processingQueue L" and "loops L = []"
  shows "loop_invariant strict (processQueue_loop L nowms)"
  using processQueue_loop_outcome[of L nowms] assms
  by (auto simp: loop_invariant_def)

lemma processQueue_invariant:
  assumes "loop_invariant strict L"
  shows "loop_invariant strict (processQueue L nowms)"
proof (cases "processingQueue L \<or> requestQueue L = []")
  case True
  then show ?thesis using assms by (simp add: processQueue_guard)
next
  case False
  then have "loops L = []" using assms by (auto simp: loop_invariant_def)
  then show ?thesis
    using False by (simp add: processQueue_def processQueue_loop_invariant)
qed

lemma resume_invariant:
  assumes "loop_invariant strict L" and "s \<in> set (loops L)"
  shows "loop_invariant strict (processQueue_loop (L\<lparr>loops := remove1 s (loops L)\<rparr>) nowms)"
proof -
  have p: "processingQueue L" and l: "length (loops L) = 1"
    using assms by (cases "loops L"; auto simp: loop_invariant_def)+
  then obtain s' where "loops L = [s']" by (cases "loops L") auto
  then have "remove1 s (loops L) = []" using assms(2) by simp
  then show ?thesis using p by (intro processQueue_loop_invariant) simp_all
qed

text \<open>
  Every action keeps the invariant; the strict form is kept by every action in which no
  unit of work rejects with a value without a message.
\<close>

lemma step_invariant:
  assumes "loop_invariant strict L" and "strict \<longrightarrow> with_message a"
  shows "loop_invariant strict (step L a)"
proof (cases a)
  case (Submit rid m prio nowms)
  show ?thesis
  proof (cases "enableQueueing (config L)")
    case True
    have "loop_invariant strict (addToQueue L \<lparr>req_id = rid, req_method = m, priority = prio,
            timestamp = nowms, retryCount = 0\<rparr> nowms)"
      by (rule loop_invariant_fields[OF _ _ assms(1)]) simp_all
    then show ?thesis
      using True Submit by (simp add: executeRequest_def processQueue_invariant)
  next
    case False
    have "loop_invariant strict (executeQueuedRequest_begin L \<lparr>req_id = rid, req_method = m,
            priority = prio, timestamp = nowms, retryCount = 0\<rparr> False nowms)"
      by (rule loop_invariant_fields[OF _ _ assms(1)]) simp_all
    then show ?thesis
      using False Submit by (simp add: executeRequest_def)
  qed
next
  case (Settle rid settled nowms)
  show ?thesis
  proof (cases "find (\<lambda>e. req_id (fst e) = rid) (running L)")
    case None
    then show ?thesis using assms Settle by (simp add: settle_def)
  next
    case (Some e)
    obtain request awaited where e: "e = (request, awaited)" by (cases e)
    let ?L1 = "L\<lparr>running := remove1_by (\<lambda>e. req_id (fst e) = rid) (running L)\<rparr>"
    have L1: "loop_invariant strict ?L1"
      by (rule loop_invariant_fields[OF _ _ assms(1)]) simp_all
    show ?thesis
    proof (cases "executeQueuedRequest_end ?L1 request settled nowms")
      case (Some L2)
      note end_returns = this
      have L2: "loop_invariant strict L2"
        using executeQueuedRequest_end_fields[OF end_returns]
        by (intro loop_invariant_fields[OF _ _ L1]) simp_all
      show ?thesis
      proof (cases "awaited \<and> AwaitingRequest \<in> set (loops L2)")
        case True
        then have "loop_invariant strict
            (processQueue_loop (L2\<lparr>loops := remove1 AwaitingRequest (loops L2)\<rparr>) nowms)"
          using resume_invariant[OF L2, of AwaitingRequest nowms] by simp
        then show ?thesis
          using True \<open>find (\<lambda>e. req_id (fst e) = rid) (running L) = Some e\<close> e Settle end_returns
          by (simp add: settle_def Let_def)
      next
        case False
        then show ?thesis
          using L2 \<open>find (\<lambda>e. req_id (fst e) = rid) (running L) = Some e\<close> e Settle end_returns
          by (auto simp: settle_def Let_def)
      qed
    next
      case None
      then have "settled = Inl NoMessage" by (simp add: executeQueuedRequest_end_throws)
      then have weak: "\<not> strict" using assms(2) Settle by auto
      have "loop_invariant False (settle L rid settled nowms)"
        using L1 None \<open>find (\<lambda>e. req_id (fst e) = rid) (running L) = Some e\<close> e weak
        by (auto simp: settle_def Let_def loop_invariant_def length_remove1)
      then show ?thesis using weak Settle by simp
    qed
  qed
next
  case (Wake nowms)
  then show ?thesis
    using assms resume_invariant[OF assms(1), of AwaitingAvailability] by (simp add: wake_def)
next
  case (RetryTimer rid nowms)
  show ?thesis
  proof (cases "find (\<lambda>e. req_id (fst e) = rid) (timers L)")
    case None
    then show ?thesis using assms RetryTimer by (simp add: retryTimer_def)
  next
    case (Some e)
    obtain request d where e: "e = (request, d)" by (cases e)
    let ?L1 = "L\<lparr>timers := remove1_by (\<lambda>e. req_id (fst e) = rid) (timers L)\<rparr>"
    have "loop_invariant strict
        (addToQueue ?L1 (request\<lparr>retryCount := retryCount request + 1\<rparr>) nowms)"
      by (rule loop_invariant_fields[OF _ _ assms(1)]) simp_all
    then show ?thesis
      using Some e RetryTimer by (simp add: retryTimer_def Let_def processQueue_invariant)
  qed
next
  case DecayTick
  have "loop_invariant strict (step L DecayTick)"
    by (rule loop_invariant_fields[OF _ _ assms(1)]) simp_all
  then show ?thesis using DecayTick by simp
next
  case Destroy
  have "loop_invariant strict (destroy L)"
    by (rule loop_invariant_fields[OF _ _ assms(1)]) simp_all
  then show ?thesis using Destroy by simp
qed

lemma run_invariant:
  "loop_invariant strict L \<Longrightarrow> (strict \<longrightarrow> (\<forall>a \<in> set actions. with_message a)) \<Longrightarrow>
   loop_invariant strict (run L actions)"
  unfolding run_def
  by (induction actions arbitrary: L) (simp_all add: step_invariant)

lemma new_invariant: "loop_invariant strict (BitrixRateLimiter cfg nowms)"
  by (simp add: loop_invariant_def BitrixRateLimiter_def)

text \<open>
  In every state that a limiter reaches from its construction at most one activation of
  \<open>processQueue\<close> is alive, and one is alive only while \<open>processingQueue\<close> is set; a call
  of \<open>processQueue\<close> while the flag is set, or while the queue is empty, changes nothing.
\<close>

lemma one_drain_loop:
  "length (loops (run (BitrixRateLimiter cfg t0) actions)) \<le> 1
   \<and> (loops (run (BitrixRateLimiter cfg t0) actions) = []
      \<or> processingQueue (run (BitrixRateLimiter cfg t0) actions))
   \<and> (processingQueue (run (BitrixRateLimiter cfg t0) actions)
        \<or> requestQueue (run (BitrixRateLimiter cfg t0) actions) = [] \<longrightarrow>
      processQueue (run (BitrixRateLimiter cfg t0) actions) nowms
        = run (BitrixRateLimiter cfg t0) actions)"
  using run_invariant[OF new_invariant, of False actions cfg t0]
  by (simp add: loop_invariant_def processQueue_guard)

text \<open>
  As long as every unit of work that rejects does so with a value that has a message, the
  flag is set exactly while the activation is alive; and the alive activation, when it
  goes on, either ends, with the flag cleared and the queue empty, or suspends again, with
  the flag still set.
\<close>

lemma flag_follows_loop:
  assumes "\<forall>a \<in> set actions. with_message a"
  shows "processingQueue (run (BitrixRateLimiter cfg t0) actions)
           \<longleftrightarrow> length (loops (run (BitrixRateLimiter cfg t0) actions)) = 1"
    and "\<not> processingQueue (run (BitrixRateLimiter cfg t0) actions)
           \<longleftrightarrow> loops (run (BitrixRateLimiter cfg t0) actions) = []"
proof -
  have "loop_invariant True (run (BitrixRateLimiter cfg t0) actions)"
    using assms by (intro run_invariant new_invariant) simp
  then show "processingQueue (run (BitrixRateLimiter cfg t0) actions)
           \<longleftrightarrow> length (loops (run (BitrixRateLimiter cfg t0) actions)) = 1"
    and "\<not> processingQueue (run (BitrixRateLimiter cfg t0) actions)
           \<longleftrightarrow> loops (run (BitrixRateLimiter cfg t0) actions) = []"
    by (cases "loops (run (BitrixRateLimiter cfg t0) actions)"; auto simp: loop_invariant_def)+
qed

lemma resumed_loop_outcome:
  assumes "loops L = [s]" and "processingQueue L"
  shows "(\<not> processingQueue (processQueue_loop (L\<lparr>loops := []\<rparr>) nowms)
            \<and> requestQueue (processQueue_loop (L\<lparr>loops := []\<rparr>) nowms) = []
            \<and> loops (processQueue_loop (L\<lparr>loops := []\<rparr>) nowms) = [])
         \<or> (processingQueue (processQueue_loop (L\<lparr>loops := []\<rparr>) nowms)
            \<and> length (loops (processQueue_loop (L\<lparr>loops := []\<rparr>) nowms)) = 1)"
  using processQueue_loop_outcome[of "L\<lparr>loops := []\<rparr>" nowms] assms by auto

text \<open>
  C10. A limiter with the default configuration receives a unit of work, and
  \<open>processQueue\<close> invokes it and awaits it. The unit rejects with a value without a
  message. \<open>handleRequestError\<close> throws on it, the activation of \<open>processQueue\<close> ends by
  that exception with the queue empty, and \<open>processingQueue\<close> stays set with no activation
  alive. A unit submitted afterwards is put in the queue; \<open>processQueue\<close> returns at its
  guard, so that unit is never invoked: the only unit ever invoked is the first.
\<close>

theorem drain_loop_dies_with_flag_set:
  "processingQueue (run (BitrixRateLimiter default_config 1700000000000)
      [Submit 0 ''crm.deal.list'' 0 1700000000001,
       Settle 0 (Inl NoMessage) 1700000000100])
   \<and> loops (run (BitrixRateLimiter default_config 1700000000000)
      [Submit 0 ''crm.deal.list'' 0 1700000000001,
       Settle 0 (Inl NoMessage) 1700000000100]) = []
   \<and> requestQueue (run (BitrixRateLimiter default_config 1700000000000)
      [Submit 0 ''crm.deal.list'' 0 1700000000001,
       Settle 0 (Inl NoMessage) 1700000000100]) = []
   \<and> processingQueue (run (BitrixRateLimiter default_config 1700000000000)
      [Submit 0 ''crm.deal.list'' 0 1700000000001,
       Settle 0 (Inl NoMessage) 1700000000100,
       Submit 1 ''crm.lead.list'' 5 1700000000200,
       Wake 1700000000700])
   \<and> loops (run (BitrixRateLimiter default_config 1700000000000)
      [Submit 0 ''crm.deal.list'' 0 1700000000001,
       Settle 0 (Inl NoMessage) 1700000000100,
       Submit 1 ''crm.lead.list'' 5 1700000000200,
       Wake 1700000000700]) = []
   \<and> map req_id (requestQueue (run (BitrixRateLimiter default_config 1700000000000)
      [Submit 0 ''crm.deal.list'' 0 1700000000001,
       Settle 0 (Inl NoMessage) 1700000000100,
       Submit 1 ''crm.lead.list'' 5 1700000000200,
       Wake 1700000000700])) = [1]
   \<and> service_order (run (BitrixRateLimiter default_config 1700000000000)
      [Submit 0 ''crm.deal.list'' 0 1700000000001,
       Settle 0 (Inl NoMessage) 1700000000100,
       Submit 1 ''crm.lead.list'' 5 1700000000200,
       Wake 1700000000700]) = [0]"
  by (simp add: eval_defs wake_def)

subsection \<open>The order of the queue\<close>



lemma set_insert_sorted: "set (insert_sorted cmp x ys) = insert x (set ys)"
  by (induction ys) auto

text \<open>Sorting keeps the elements of the queue.\<close>

lemma set_array_sort: "set (array_sort cmp xs) = set xs"
proof -
  have "set (foldl (\<lambda>acc x. insert_sorted cmp x acc) acc xs) = set acc \<union> set xs" for acc
    by (induction xs arbitrary: acc) (auto simp: set_insert_sorted)
  then show ?thesis by (simp add: array_sort_def)
qed

lemma length_insert_sorted: "length (insert_sorted cmp x ys) = Suc (length ys)"
  by (induction ys) auto

lemma length_array_sort: "length (array_sort cmp xs) = length xs"
proof -
  have "length (foldl (\<lambda>acc x. insert_sorted cmp x acc) acc xs) = length acc + length xs" for acc
    by (induction xs arbitrary: acc) (auto simp: length_insert_sorted)
  then show ?thesis by (simp add: array_sort_def)
qed













end
